theory Spec2Isabelle
  imports Complex_Main "HOL-Library.AList" "HOL-Library.Sublist"
begin

section \<open>Python values, errors and the library functions the code calls\<close>

text \<open>
  The values that flow through both modules are what \<^verbatim>\<open>json.loads\<close> and the generators
  return: \<^verbatim>\<open>None\<close>, booleans, integers, floats, strings, lists and dictionaries with string
  keys. A dictionary is an association list in insertion order (Python dictionaries keep
  it); a well-formed one has distinct keys. Strings are lists of characters. What the
  code writes to the console with \<^verbatim>\<open>print\<close> is left out: no result depends on it.
\<close>

datatype pyfloat = Finite rat | PosInf | NegInf | NaN

datatype pyval =
    PNone
  | PBool bool
  | PInt int
  | PFloat pyfloat
  | PStr string
  | PList "pyval list"
  | PDict "(string \<times> pyval) list"

text \<open>The exceptions that the modelled statements can raise.\<close>

datatype error = TypeError | KeyError | AttributeError

type_synonym pydict = "(string \<times> pyval) list"

text \<open>\<^verbatim>\<open>d[k] = v\<close>: an existing key keeps its position, a new key is appended.\<close>

definition dict_set :: "pydict \<Rightarrow> string \<Rightarrow> pyval \<Rightarrow> pydict" where
  "dict_set d k v = AList.update k v d"

text \<open>\<^verbatim>\<open>str.strip()\<close>: the white space of Python strings among the characters below 256.\<close>

definition is_space :: "char \<Rightarrow> bool" where
  "is_space c = ((of_char c :: nat) \<in> {9, 10, 11, 12, 13, 28, 29, 30, 31, 32, 133, 160})"

definition strip :: "string \<Rightarrow> string" where
  "strip s = rev (dropWhile is_space (rev (dropWhile is_space s)))"

text \<open>\<^verbatim>\<open>str.replace(old, new)\<close>: non-overlapping occurrences, left to right.\<close>

function py_replace :: "string \<Rightarrow> string \<Rightarrow> string \<Rightarrow> string" where
  "py_replace old new s =
     (if old = [] then new @ concat (map (\<lambda>c. c # new) s)
      else if s = [] then []
      else if prefix old s then new @ py_replace old new (drop (length old) s)
      else hd s # py_replace old new (tl s))"
  by pat_completeness auto
termination
  by (relation "measure (\<lambda>(old, new, s). length s)") auto

declare py_replace.simps [simp del]

text \<open>
  \<^verbatim>\<open>int(s)\<close> on a string: surrounding white space is dropped, then an optional sign and
  decimal digits, where single underscores may separate digits. Anything else is a
  \<^verbatim>\<open>ValueError\<close>, here \<open>None\<close>. (Python also reads the decimal digits of other scripts;
  they lie beyond the characters of this model.)
\<close>

definition is_digit :: "char \<Rightarrow> bool" where
  "is_digit c = (48 \<le> (of_char c :: nat) \<and> (of_char c :: nat) \<le> 57)"

definition digit_val :: "char \<Rightarrow> nat" where
  "digit_val c = of_char c - 48"

fun digits_value :: "nat \<Rightarrow> string \<Rightarrow> nat option" where
  "digits_value acc [] = None"
| "digits_value acc [c] = (if is_digit c then Some (acc * 10 + digit_val c) else None)"
| "digits_value acc (c # d # cs) =
     (if is_digit c then
        (if d = CHR ''_'' then digits_value (acc * 10 + digit_val c) cs
         else digits_value (acc * 10 + digit_val c) (d # cs))
      else None)"

definition py_int :: "string \<Rightarrow> int option" where
  "py_int s =
     (case strip s of
        [] \<Rightarrow> None
      | c # cs \<Rightarrow>
          if c = CHR ''-'' then map_option (\<lambda>n. - int n) (digits_value 0 cs)
          else if c = CHR ''+'' then map_option int (digits_value 0 cs)
          else map_option int (digits_value 0 (c # cs)))"

section \<open>The environment: everything outside the repository\<close>

text \<open>
  The Faker producers, \<^verbatim>\<open>random\<close>, the Gemini service, \<^verbatim>\<open>str()\<close> and the \<^verbatim>\<open>json\<close>
  module are not code of the repository. They are parameters, acting on an explicit
  world state \<open>'w\<close> (the random generators, the remote service). The service call
  \<^verbatim>\<open>model.generate_content(prompt)\<close> followed by \<^verbatim>\<open>response.text\<close> yields \<open>None\<close> when
  either raises. \<^verbatim>\<open>json.loads\<close> yields \<open>None\<close> when it raises.
\<close>

record 'w env =
  fake_name :: "'w \<Rightarrow> string \<times> 'w"
  fake_safe_email :: "'w \<Rightarrow> string \<times> 'w"
  fake_password :: "nat \<Rightarrow> 'w \<Rightarrow> string \<times> 'w"
  fake_random_int :: "'w \<Rightarrow> int \<times> 'w"
  fake_date :: "'w \<Rightarrow> string \<times> 'w"
  fake_uuid4 :: "'w \<Rightarrow> string \<times> 'w"
  randbelow :: "nat \<Rightarrow> 'w \<Rightarrow> nat \<times> 'w"
  gemini_enabled :: bool
  generate_content :: "string \<Rightarrow> 'w \<Rightarrow> string option \<times> 'w"
  py_str :: "pyval \<Rightarrow> string"
  json_dumps :: "nat option \<Rightarrow> pyval \<Rightarrow> string"
  json_loads :: "string \<Rightarrow> pyval option"

text \<open>
  \<^verbatim>\<open>random.choice(seq)\<close> is \<^verbatim>\<open>seq[randbelow(len(seq))]\<close>, where the library guarantees
  an index below the length; the reduction modulo the length states that guarantee for
  every environment. All uses in the code are on non-empty literal lists.
\<close>

definition random_choice :: "'w env \<Rightarrow> 'a list \<Rightarrow> 'w \<Rightarrow> 'a \<times> 'w" where
  "random_choice env xs w =
     (let (i, w') = randbelow env (length xs) w in (xs ! (i mod length xs), w'))"

section \<open>data_factory.py\<close>

text \<open>\<^verbatim>\<open>generate_ai_content\<close>: both failure modes become strings, nothing is raised.\<close>

definition generate_ai_content :: "'w env \<Rightarrow> string \<Rightarrow> 'w \<Rightarrow> pyval \<times> 'w" where
  "generate_ai_content env prompt w =
     (if \<not> gemini_enabled env then (PStr ''AI_DISABLED'', w)
      else (case generate_content env prompt w of
              (None, w') \<Rightarrow> (PStr ''AI_GENERATION_ERROR'', w')
            | (Some text, w') \<Rightarrow> (PStr (strip text), w')))"

text \<open>
  A registered generator is a Python callable. What matters to the caller is how many
  positional arguments it accepts: the Faker methods and the lambdas of the table take
  none, \<^verbatim>\<open>generate_ai_content\<close> takes exactly one. A call with the wrong number of
  arguments raises \<^verbatim>\<open>TypeError\<close>.
\<close>

datatype 'w generator =
    Niladic "'w \<Rightarrow> pyval \<times> 'w"
  | Unary "string \<Rightarrow> 'w \<Rightarrow> pyval \<times> 'w"

fun call0 :: "'w generator \<Rightarrow> 'w \<Rightarrow> error + (pyval \<times> 'w)" where
  "call0 (Niladic f) w = Inr (f w)"
| "call0 (Unary f) w = Inl TypeError"

fun call1 :: "'w generator \<Rightarrow> string \<Rightarrow> 'w \<Rightarrow> error + (pyval \<times> 'w)" where
  "call1 (Unary f) p w = Inr (f p w)"
| "call1 (Niladic f) p w = Inl TypeError"

definition str_gen :: "('w \<Rightarrow> string \<times> 'w) \<Rightarrow> 'w generator" where
  "str_gen f = Niladic (\<lambda>w. let (s, w') = f w in (PStr s, w'))"

definition const_gen :: "string \<Rightarrow> 'w generator" where
  "const_gen s = Niladic (\<lambda>w. (PStr s, w))"

definition TYPE_GENERATORS :: "'w env \<Rightarrow> (string \<times> (string \<times> 'w generator) list) list" where
  "TYPE_GENERATORS env =
     [(''name'',
         [(''positive'', str_gen (fake_name env)),
          (''negative'', Niladic (random_choice env
             [PStr '''', PStr ''Name123'', PStr (replicate 201 CHR ''A'')]))]),
      (''email'',
         [(''positive'', str_gen (fake_safe_email env)),
          (''negative'', const_gen ''not-an-email'')]),
      (''password'',
         [(''positive'', str_gen (fake_password env 12)),
          (''negative'', const_gen ''123'')]),
      (''integer'',
         [(''positive'', Niladic (\<lambda>w. let (i, w') = fake_random_int env w in (PInt i, w'))),
          (''negative'', Niladic (random_choice env
             [PInt (- 1), PFloat (Finite (9999 / 10)), PStr ''abc'']))]),
      (''date'',
         [(''positive'', str_gen (fake_date env)),
          (''negative'', const_gen ''2025-99-99'')]),
      (''uuid'',
         [(''positive'', str_gen (fake_uuid4 env)),
          (''negative'', const_gen ''not-a-uuid'')]),
      (''ai_text'',
         [(''positive'', Unary (generate_ai_content env)),
          (''negative'', const_gen ''INVALID_AI_PROMPT'')])]"

text \<open>
  A field configuration is a dictionary with the keys \<^verbatim>\<open>type\<close> and, for \<^verbatim>\<open>ai_text\<close>,
  \<^verbatim>\<open>prompt\<close>; a schema is a dictionary whose key \<^verbatim>\<open>fields\<close> holds the ordered
  dictionary from field names to configurations.
\<close>

type_synonym field_config = "(string \<times> string) list"
type_synonym fields = "(string \<times> field_config) list"
type_synonym schema = "(string \<times> fields) list"

text \<open>How an f-string prints the result of \<^verbatim>\<open>field_config.get('type')\<close>.\<close>

definition fmt_opt :: "string option \<Rightarrow> string" where
  "fmt_opt t = (case t of None \<Rightarrow> ''None'' | Some s \<Rightarrow> s)"

text \<open>Line 106: the case used for one field.\<close>

definition select_case :: "'w env \<Rightarrow> string \<Rightarrow> 'w \<Rightarrow> string \<times> 'w" where
  "select_case env test_type w =
     (if test_type \<noteq> ''mixed'' then (test_type, w)
      else random_choice env [''positive'', ''negative''] w)"

text \<open>Lines 108 and 109: the lookup in the table, with \<^verbatim>\<open>{}\<close> for an unknown type.\<close>

definition resolve :: "'w env \<Rightarrow> string option \<Rightarrow> string \<Rightarrow> 'w generator option" where
  "resolve env field_type current_case =
     (let generator_map =
            (case field_type of
               None \<Rightarrow> []
             | Some t \<Rightarrow> (case map_of (TYPE_GENERATORS env) t of None \<Rightarrow> [] | Some m \<Rightarrow> m))
      in map_of generator_map current_case)"

text \<open>Lines 108 to 119: the value stored for one field, once the case is known.\<close>

definition field_value ::
  "'w env \<Rightarrow> field_config \<Rightarrow> string \<Rightarrow> 'w \<Rightarrow> error + (pyval \<times> 'w)" where
  "field_value env field_config current_case w =
     (let field_type = map_of field_config ''type'' in
      case resolve env field_type current_case of
        Some generator_func \<Rightarrow>
          if field_type = Some ''ai_text'' then
            (let prompt = (case map_of field_config ''prompt'' of
                             None \<Rightarrow> ''generate random text'' | Some p \<Rightarrow> p)
             in call1 generator_func prompt w)
          else call0 generator_func w
      | None \<Rightarrow>
          Inr (PStr (''NO_GENERATOR_FOR_'' @ fmt_opt field_type @ ''_'' @ current_case), w))"

text \<open>Lines 104 to 119: the body of the loop over the fields.\<close>

definition gen_field ::
  "'w env \<Rightarrow> string \<Rightarrow> string \<times> field_config \<Rightarrow> pydict \<times> 'w \<Rightarrow> error + (pydict \<times> 'w)" where
  "gen_field env test_type fld st =
     (let (field_name, field_config) = fld; (row, w) = st;
          (current_case, w1) = select_case env test_type w
      in case field_value env field_config current_case w1 of
           Inl e \<Rightarrow> Inl e
         | Inr (v, w2) \<Rightarrow> Inr (dict_set row field_name v, w2))"

text \<open>A \<^verbatim>\<open>for\<close> loop whose body may raise: the first exception ends it.\<close>

fun for_each :: "('a \<Rightarrow> 's \<Rightarrow> error + 's) \<Rightarrow> 'a list \<Rightarrow> 's \<Rightarrow> error + 's" where
  "for_each body [] s = Inr s"
| "for_each body (x # xs) s =
     (case body x s of Inl e \<Rightarrow> Inl e | Inr s' \<Rightarrow> for_each body xs s')"

text \<open>Lines 101 to 120: \<^verbatim>\<open>range(num_rows)\<close> iterations, each appending one record.\<close>

fun gen_rows ::
  "'w env \<Rightarrow> fields \<Rightarrow> string \<Rightarrow> nat \<Rightarrow> pydict list \<times> 'w \<Rightarrow> error + (pydict list \<times> 'w)" where
  "gen_rows env flds test_type 0 st = Inr st"
| "gen_rows env flds test_type (Suc n) (data, w) =
     (case for_each (gen_field env test_type) flds ([], w) of
        Inl e \<Rightarrow> Inl e
      | Inr (row, w') \<Rightarrow> gen_rows env flds test_type n (data @ [row], w'))"

text \<open>
  \<^verbatim>\<open>pd.DataFrame(list_of_dicts)\<close>: the columns are the keys in order of first appearance;
  a record without a column's key gets a missing cell (NaN), here \<open>None\<close>.
\<close>

record dataframe =
  columns :: "string list"
  rows :: "pyval option list list"

definition add_keys :: "pydict \<Rightarrow> string list \<Rightarrow> string list" where
  "add_keys r cs = fold (\<lambda>k cs. if k \<in> set cs then cs else cs @ [k]) (map fst r) cs"

definition DataFrame :: "pydict list \<Rightarrow> dataframe" where
  "DataFrame data =
     (let cols = fold add_keys data []
      in \<lparr>columns = cols, rows = map (\<lambda>r. map (map_of r) cols) data\<rparr>)"

text \<open>\<^verbatim>\<open>df.empty\<close>: one of the two axes has length zero.\<close>

definition df_empty :: "dataframe \<Rightarrow> bool" where
  "df_empty df = (columns df = [] \<or> rows df = [])"

text \<open>\<^verbatim>\<open>generate_data(schema, num_rows, test_type)\<close>.\<close>

definition generate_data ::
  "'w env \<Rightarrow> schema \<Rightarrow> int \<Rightarrow> string \<Rightarrow> 'w \<Rightarrow> error + (dataframe \<times> 'w)" where
  "generate_data env schema num_rows test_type w =
     (let flds = (case map_of schema ''fields'' of None \<Rightarrow> [] | Some f \<Rightarrow> f)
      in case gen_rows env flds test_type (nat num_rows) ([], w) of
           Inl e \<Rightarrow> Inl e
         | Inr (data, w') \<Rightarrow> Inr (DataFrame data, w'))"

text \<open>
  Reading a table: the cell of row \<open>i\<close> in column \<open>c\<close>. \<open>None\<close> when the table has no
  such row or column, \<open>Some None\<close> for a missing (NaN) cell.
\<close>

definition df_cell :: "dataframe \<Rightarrow> nat \<Rightarrow> string \<Rightarrow> pyval option option" where
  "df_cell df i c =
     (if i < length (rows df) then map_of (zip (columns df) (rows df ! i)) c else None)"

text \<open>
  Shorthand for the lemmas below: record \<open>r\<close> has exactly the schema's keys, in schema
  order, and each value is what the field's generator returned for a case that line 106
  selected, in some state of the world.
\<close>

abbreviation row_from :: "'w env \<Rightarrow> string \<Rightarrow> fields \<Rightarrow> pydict \<Rightarrow> bool" where
  "row_from env tt flds r \<equiv>
     map fst r = map fst flds
   \<and> (\<forall>(name, cfg) \<in> set flds. \<exists>v w0 c w1 w2. map_of r name = Some v
         \<and> select_case env tt w0 = (c, w1) \<and> field_value env cfg c w1 = Inr (v, w2))"

section \<open>test_strategist.py\<close>

text \<open>
  The operations of Python on the values a parsed response can hold. Subscripting and item
  assignment with a string key work on dictionaries only; iteration and \<^verbatim>\<open>len\<close> work on
  lists, dictionaries (their keys) and strings (their characters); \<^verbatim>\<open>.get\<close> exists on
  dictionaries only.
\<close>

definition py_getitem :: "pyval \<Rightarrow> string \<Rightarrow> error + pyval" where
  "py_getitem obj key =
     (case obj of
        PDict d \<Rightarrow> (case map_of d key of None \<Rightarrow> Inl KeyError | Some v \<Rightarrow> Inr v)
      | _ \<Rightarrow> Inl TypeError)"

definition py_get :: "pyval \<Rightarrow> string \<Rightarrow> pyval \<Rightarrow> error + pyval" where
  "py_get obj key dflt =
     (case obj of
        PDict d \<Rightarrow> Inr (case map_of d key of None \<Rightarrow> dflt | Some v \<Rightarrow> v)
      | _ \<Rightarrow> Inl AttributeError)"

definition py_iter :: "pyval \<Rightarrow> error + pyval list" where
  "py_iter obj =
     (case obj of
        PList xs \<Rightarrow> Inr xs
      | PDict d \<Rightarrow> Inr (map (\<lambda>kv. PStr (fst kv)) d)
      | PStr s \<Rightarrow> Inr (map (\<lambda>c. PStr [c]) s)
      | _ \<Rightarrow> Inl TypeError)"

definition py_len :: "pyval \<Rightarrow> error + nat" where
  "py_len obj =
     (case obj of
        PList xs \<Rightarrow> Inr (length xs)
      | PDict d \<Rightarrow> Inr (length d)
      | PStr s \<Rightarrow> Inr (length s)
      | _ \<Rightarrow> Inl TypeError)"

text \<open>Lines 40 and 89: \<^verbatim>\<open>response.text.strip().replace("```json", "").replace("```", "")\<close>.\<close>

definition json_text_of :: "string \<Rightarrow> string" where
  "json_text_of text = py_replace ''```'' '''' (py_replace ''```json'' '''' (strip text))"

text \<open>The three prompts, as the f-strings build them.\<close>

definition nl :: string where
  "nl = [CHR 0x0A]"

definition plan_prompt :: "string \<Rightarrow> string" where
  \<open>plan_prompt requirement =
     nl @ ''    As an expert QA Test Analyst, analyze the following user requirement and generate a structured test plan in JSON format.''
     @ nl @ ''    User Requirement: "'' @ requirement @ ''"''
     @ nl @ ''    Your response MUST be a single, valid JSON object with two top-level keys: "fields" (a list of strings) and "scenarios" (a list of objects with keys 'scenario_name', 'test_type', and 'description'), and nothing else.''
     @ nl @ ''    ''\<close>

definition row_count_prompt :: "'w env \<Rightarrow> pyval \<Rightarrow> string" where
  \<open>row_count_prompt env plan =
     nl @ ''    As a QA Lead, analyze the following test plan. Based on the number and variety of scenarios, determine the ideal number of test data rows to generate PER SCENARIO to achieve good test coverage without being excessive.''
     @ nl
     @ nl @ ''    Test Plan:''
     @ nl @ ''    '' @ json_dumps env (Some 2) plan
     @ nl
     @ nl @ ''    Your response MUST be a single integer and nothing else. For example: 3''
     @ nl @ ''    ''\<close>

definition rows_prompt :: "'w env \<Rightarrow> int \<Rightarrow> pyval \<Rightarrow> pyval \<Rightarrow> string" where
  \<open>rows_prompt env rows_per_scenario description flds =
     nl @ ''        Generate '' @ py_str env (PInt rows_per_scenario)
          @ '' unique JSON objects of test data that precisely match the following test scenario.''
     @ nl @ ''        Scenario Description: "'' @ py_str env description @ ''"''
     @ nl @ ''        Each JSON object MUST contain exactly these keys: '' @ json_dumps env None flds @ ''.''
     @ nl @ ''        The values you generate for each key should be appropriate for the scenario.''
     @ nl @ ''        Your response MUST be a single, valid JSON array containing the ''
          @ py_str env (PInt rows_per_scenario) @ '' objects, and nothing else.''
     @ nl @ ''        ''\<close>

text \<open>
  \<^verbatim>\<open>generate_test_plan\<close>: everything between the service call and the \<^verbatim>\<open>print\<close> of line 42
  is inside the \<^verbatim>\<open>try\<close>; the \<^verbatim>\<open>print\<close> evaluates \<^verbatim>\<open>len(plan['scenarios'])\<close>, so a missing
  key or a value without a length also ends in \<^verbatim>\<open>return None\<close> (here \<open>None\<close>).
\<close>

definition generate_test_plan :: "'w env \<Rightarrow> string \<Rightarrow> 'w \<Rightarrow> pyval option \<times> 'w" where
  "generate_test_plan env requirement w =
     (case generate_content env (plan_prompt requirement) w of
        (None, w') \<Rightarrow> (None, w')
      | (Some text, w') \<Rightarrow>
          (case json_loads env (json_text_of text) of
             None \<Rightarrow> (None, w')
           | Some plan \<Rightarrow>
               (case py_getitem plan ''scenarios'' of
                  Inl e \<Rightarrow> (None, w')
                | Inr scenarios \<Rightarrow>
                    (case py_len scenarios of
                       Inl e \<Rightarrow> (None, w')
                     | Inr n \<Rightarrow> (Some plan, w')))))"

text \<open>
  \<^verbatim>\<open>get_ideal_row_count\<close>: the prompt is built before the \<^verbatim>\<open>try\<close> (\<^verbatim>\<open>json.dumps\<close> does not
  fail on parsed JSON); the call and \<^verbatim>\<open>int(response.text.strip())\<close> are inside it.
\<close>

definition get_ideal_row_count :: "'w env \<Rightarrow> pyval \<Rightarrow> 'w \<Rightarrow> int \<times> 'w" where
  "get_ideal_row_count env plan w =
     (case generate_content env (row_count_prompt env plan) w of
        (None, w') \<Rightarrow> (3, w')
      | (Some text, w') \<Rightarrow>
          (case py_int (strip text) of
             None \<Rightarrow> (3, w')
           | Some ideal_count \<Rightarrow> (ideal_count, w')))"

text \<open>
  Lines 91 to 93 for one row: both assignments need a dictionary. The rows of a freshly
  parsed response are distinct objects, so the in-place update is an update of the value.
\<close>

definition tag_row :: "pyval \<Rightarrow> pyval \<Rightarrow> pyval \<Rightarrow> error + pydict" where
  "tag_row scenario_name test_type row =
     (case row of
        PDict d \<Rightarrow> Inr (dict_set (dict_set d ''scenario_name'' scenario_name) ''test_type'' test_type)
      | _ \<Rightarrow> Inl TypeError)"

fun map_all :: "('a \<Rightarrow> error + 'b) \<Rightarrow> 'a list \<Rightarrow> error + 'b list" where
  "map_all f [] = Inr []"
| "map_all f (x # xs) =
     (case f x of
        Inl e \<Rightarrow> Inl e
      | Inr y \<Rightarrow> (case map_all f xs of Inl e \<Rightarrow> Inl e | Inr ys \<Rightarrow> Inr (y # ys)))"

text \<open>
  Lines 91 to 94: the loop over \<^verbatim>\<open>generated_rows\<close> and what \<^verbatim>\<open>extend\<close> then appends. The
  loop runs to its end before \<^verbatim>\<open>extend\<close>, so one row that is not a dictionary discards
  the whole reply.
\<close>

definition tag_rows :: "pyval \<Rightarrow> pyval \<Rightarrow> pyval \<Rightarrow> error + pydict list" where
  "tag_rows scenario_name test_type generated_rows =
     (case py_iter generated_rows of
        Inl e \<Rightarrow> Inl e
      | Inr rs \<Rightarrow> map_all (tag_row scenario_name test_type) rs)"

text \<open>
  Lines 80 to 96: the prompt and the \<^verbatim>\<open>try\<close> block of one scenario. \<open>Some\<close> holds the rows
  that \<^verbatim>\<open>extend\<close> appends; \<open>None\<close> is the \<^verbatim>\<open>except\<close> branch.
\<close>

definition scenario_rows ::
  "'w env \<Rightarrow> pyval \<Rightarrow> int \<Rightarrow> pyval \<Rightarrow> pyval \<Rightarrow> pyval \<Rightarrow> 'w \<Rightarrow> pydict list option \<times> 'w" where
  "scenario_rows env flds rows_per_scenario scenario_name description test_type w =
     (case generate_content env (rows_prompt env rows_per_scenario description flds) w of
        (None, w') \<Rightarrow> (None, w')
      | (Some text, w') \<Rightarrow>
          (case json_loads env (json_text_of text) of
             None \<Rightarrow> (None, w')
           | Some generated_rows \<Rightarrow>
               (case tag_rows scenario_name test_type generated_rows of
                  Inl e \<Rightarrow> (None, w')
                | Inr tagged \<Rightarrow> (Some tagged, w'))))"

text \<open>Lines 75 to 96: the body of the loop over the scenarios.\<close>

definition scenario_step ::
  "'w env \<Rightarrow> pyval \<Rightarrow> int \<Rightarrow> pyval \<Rightarrow> pydict list \<times> 'w \<Rightarrow> error + (pydict list \<times> 'w)" where
  "scenario_step env flds rows_per_scenario scenario st =
     (let (all_test_data, w) = st in
      case py_getitem scenario ''scenario_name'' of
        Inl e \<Rightarrow> Inl e
      | Inr scenario_name \<Rightarrow>
      case py_getitem scenario ''description'' of
        Inl e \<Rightarrow> Inl e
      | Inr description \<Rightarrow>
      case py_getitem scenario ''test_type'' of
        Inl e \<Rightarrow> Inl e
      | Inr test_type \<Rightarrow>
      case scenario_rows env flds rows_per_scenario scenario_name description test_type w of
        (None, w') \<Rightarrow> Inr (all_test_data, w')
      | (Some tagged, w') \<Rightarrow> Inr (all_test_data @ tagged, w'))"

text \<open>Lines 71 to 96: the list \<^verbatim>\<open>all_test_data\<close> when the loop ends.\<close>

definition generate_rows_for_plan ::
  "'w env \<Rightarrow> pyval \<Rightarrow> int \<Rightarrow> 'w \<Rightarrow> error + (pydict list \<times> 'w)" where
  "generate_rows_for_plan env plan rows_per_scenario w =
     (case py_get plan ''fields'' (PList []) of
        Inl e \<Rightarrow> Inl e
      | Inr flds \<Rightarrow>
      case py_getitem plan ''scenarios'' of
        Inl e \<Rightarrow> Inl e
      | Inr scenarios \<Rightarrow>
      case py_iter scenarios of
        Inl e \<Rightarrow> Inl e
      | Inr scs \<Rightarrow> for_each (scenario_step env flds rows_per_scenario) scs ([], w))"

text \<open>\<^verbatim>\<open>generate_data_for_plan(plan, rows_per_scenario)\<close>.\<close>

definition generate_data_for_plan ::
  "'w env \<Rightarrow> pyval \<Rightarrow> int \<Rightarrow> 'w \<Rightarrow> error + (dataframe \<times> 'w)" where
  "generate_data_for_plan env plan rows_per_scenario w =
     (case generate_rows_for_plan env plan rows_per_scenario w of
        Inl e \<Rightarrow> Inl e
      | Inr (all_test_data, w') \<Rightarrow> Inr (DataFrame all_test_data, w'))"

text \<open>
  \<^verbatim>\<open>df[cols]\<close> and \<^verbatim>\<open>df.drop(columns=cols)\<close>: both raise \<^verbatim>\<open>KeyError\<close> when a named column
  does not exist. A row of a table has one cell per column, so the lookup in \<open>df_select\<close>
  always finds the cell.
\<close>

definition df_select :: "dataframe \<Rightarrow> string list \<Rightarrow> error + dataframe" where
  "df_select df cols =
     (if set cols \<subseteq> set (columns df) then
        Inr \<lparr>columns = cols,
             rows = map (\<lambda>r. map (\<lambda>c. case map_of (zip (columns df) r) c of
                                         None \<Rightarrow> None | Some x \<Rightarrow> x) cols) (rows df)\<rparr>
      else Inl KeyError)"

definition df_drop :: "dataframe \<Rightarrow> string list \<Rightarrow> error + dataframe" where
  "df_drop df cols =
     (if set cols \<subseteq> set (columns df) then
        Inr \<lparr>columns = filter (\<lambda>c. c \<notin> set cols) (columns df),
             rows = map (\<lambda>r. map snd (filter (\<lambda>(c, x). c \<notin> set cols) (zip (columns df) r)))
                      (rows df)\<rparr>
      else Inl KeyError)"

text \<open>
  Lines 126 to 138 of \<^verbatim>\<open>main\<close>: the two tables handed to \<^verbatim>\<open>to_csv\<close>, the full report first;
  \<open>None\<close> when the table is empty and nothing is written.
\<close>

definition main_export :: "dataframe \<Rightarrow> error + (dataframe \<times> dataframe) option" where
  "main_export df =
     (if \<not> df_empty df then
        (let cols_to_move = [''scenario_name'', ''test_type''] in
         case df_select df (cols_to_move @ filter (\<lambda>col. col \<notin> set cols_to_move) (columns df)) of
           Inl e \<Rightarrow> Inl e
         | Inr df_full \<Rightarrow>
             (case df_drop df cols_to_move of
                Inl e \<Rightarrow> Inl e
              | Inr data_only_df \<Rightarrow> Inr (Some (df_full, data_only_df))))
      else Inr None)"

section \<open>Notions used to state the claims\<close>

text \<open>
  A scenario the loop body can read: a dictionary with the three keys of lines 75 to 77.
\<close>

definition scenario_ok :: "pyval \<Rightarrow> bool" where
  "scenario_ok s =
     (case s of
        PDict d \<Rightarrow> map_of d ''scenario_name'' \<noteq> None \<and> map_of d ''description'' \<noteq> None
                   \<and> map_of d ''test_type'' \<noteq> None
      | _ \<Rightarrow> False)"

text \<open>
  A parsed response that line 42 can print: a dictionary whose key \<^verbatim>\<open>scenarios\<close> holds a
  value with a length.
\<close>

definition has_scenarios :: "pyval \<Rightarrow> bool" where
  "has_scenarios plan =
     (case plan of
        PDict d \<Rightarrow>
          (case map_of d ''scenarios'' of
             Some (PList xs) \<Rightarrow> True
           | Some (PDict kvs) \<Rightarrow> True
           | Some (PStr s) \<Rightarrow> True
           | _ \<Rightarrow> False)
      | _ \<Rightarrow> False)"

text \<open>
  The outcome of the \<^verbatim>\<open>try\<close> block of every scenario, in plan order, with the world threaded
  through the calls as the loop does: \<open>Some\<close> the tagged rows, or \<open>None\<close> for a skipped
  scenario. The list ends at the first scenario whose keys cannot be read.
\<close>

fun plan_outcomes ::
  "'w env \<Rightarrow> pyval \<Rightarrow> int \<Rightarrow> pyval list \<Rightarrow> 'w \<Rightarrow> pydict list option list" where
  "plan_outcomes env flds rps [] w = []"
| "plan_outcomes env flds rps (s # scs) w =
     (case (py_getitem s ''scenario_name'', py_getitem s ''description'',
            py_getitem s ''test_type'') of
        (Inr n, Inr d, Inr t) \<Rightarrow>
          (case scenario_rows env flds rps n d t w of
             (out, w') \<Rightarrow> out # plan_outcomes env flds rps scs w')
      | _ \<Rightarrow> [])"

definition rows_of :: "pydict list option \<Rightarrow> pydict list" where
  "rows_of out = (case out of None \<Rightarrow> [] | Some rs \<Rightarrow> rs)"

fun successes :: "pydict list option list \<Rightarrow> nat" where
  "successes [] = 0"
| "successes (None # outs) = successes outs"
| "successes (Some rs # outs) = Suc (successes outs)"

text \<open>The number of rows of a returned table; \<open>None\<close> when the call raised.\<close>

definition row_count :: "error + (dataframe \<times> 'w) \<Rightarrow> nat option" where
  "row_count res = (case res of Inl e \<Rightarrow> None | Inr (df, w) \<Rightarrow> Some (length (rows df)))"

text \<open>Where a record of \<^verbatim>\<open>all_test_data\<close> comes from.\<close>

abbreviation from_reply :: "'w env \<Rightarrow> pyval \<Rightarrow> pyval \<Rightarrow> pydict \<Rightarrow> bool" where
  "from_reply env n t r \<equiv>
     (\<exists>d prompt w0 w1 reply generated xs.
        r = dict_set (dict_set d ''scenario_name'' n) ''test_type'' t
      \<and> generate_content env prompt w0 = (Some reply, w1)
      \<and> json_loads env (json_text_of reply) = Some generated
      \<and> py_iter generated = Inr xs \<and> PDict d \<in> set xs)"

section \<open>A concrete environment for evaluation\<close>

text \<open>
  A small deterministic environment: the world holds the upcoming random draws and the
  upcoming replies of the service (\<open>None\<close> is a failing call); the Faker producers return
  fixed values; the JSON reader knows the handful of texts used below and rejects every
  other text.
\<close>

record world =
  draws :: "nat list"
  replies :: "string option list"

definition demo_scenarios :: "pyval list" where
  "demo_scenarios =
     [PDict [(''scenario_name'', PStr ''valid login''), (''test_type'', PStr ''positive''),
             (''description'', PStr ''registered user'')],
      PDict [(''scenario_name'', PStr ''bad email''), (''test_type'', PStr ''negative''),
             (''description'', PStr ''malformed address'')],
      PDict [(''scenario_name'', PStr ''short password''), (''test_type'', PStr ''negative''),
             (''description'', PStr ''three characters'')]]"

definition demo_fields :: pyval where
  "demo_fields = PList [PStr ''email'', PStr ''password'']"

definition demo_plan :: pyval where
  "demo_plan = PDict [(''fields'', demo_fields), (''scenarios'', PList demo_scenarios)]"

definition demo_plan_text :: string where
  \<open>demo_plan_text = ''{"fields": ["email", "password"], "scenarios": [{"scenario_name": "valid login", "test_type": "positive", "description": "registered user"}, {"scenario_name": "bad email", "test_type": "negative", "description": "malformed address"}, {"scenario_name": "short password", "test_type": "negative", "description": "three characters"}]}''\<close>

definition empty_plan_text :: string where
  \<open>empty_plan_text = ''{"fields": ["email"], "scenarios": []}''\<close>

definition two_rows_text :: string where
  \<open>two_rows_text = ''[{"email": "a@x.io", "password": "Secret#24"}, {"email": "b@x.io", "password": "Other#24"}]''\<close>

definition three_rows_text :: string where
  \<open>three_rows_text = ''[{"email": "c@x.io", "password": "p1"}, {"email": "d@x.io", "password": "p2"}, {"email": "e@x.io", "password": "p3"}]''\<close>

definition ragged_rows_text :: string where
  \<open>ragged_rows_text = ''[{"email": "a@x.io"}, {"password": "pw"}]''\<close>

definition demo_loads :: "string \<Rightarrow> pyval option" where
  "demo_loads s =
     map_of
       [(demo_plan_text, demo_plan),
        (empty_plan_text, PDict [(''fields'', PList [PStr ''email'']), (''scenarios'', PList [])]),
        (two_rows_text,
           PList [PDict [(''email'', PStr ''a@x.io''), (''password'', PStr ''Secret#24'')],
                  PDict [(''email'', PStr ''b@x.io''), (''password'', PStr ''Other#24'')]]),
        (three_rows_text,
           PList [PDict [(''email'', PStr ''c@x.io''), (''password'', PStr ''p1'')],
                  PDict [(''email'', PStr ''d@x.io''), (''password'', PStr ''p2'')],
                  PDict [(''email'', PStr ''e@x.io''), (''password'', PStr ''p3'')]]),
        (ragged_rows_text,
           PList [PDict [(''email'', PStr ''a@x.io'')], PDict [(''password'', PStr ''pw'')]])]
       (strip s)"

definition demo_env :: "world env" where
  "demo_env =
     \<lparr>fake_name = (\<lambda>w. (''Asha Rao'', w)),
      fake_safe_email = (\<lambda>w. (''asha@example.com'', w)),
      fake_password = (\<lambda>n w. (replicate n CHR ''x'', w)),
      fake_random_int = (\<lambda>w. (42, w)),
      fake_date = (\<lambda>w. (''2024-01-31'', w)),
      fake_uuid4 = (\<lambda>w. (''0b0e6a2c-5f0e-4c55-9d1c-3a1f2b7c9d10'', w)),
      randbelow = (\<lambda>n w. case draws w of [] \<Rightarrow> (0, w) | d # ds \<Rightarrow> (d, w\<lparr>draws := ds\<rparr>)),
      gemini_enabled = True,
      generate_content =
        (\<lambda>p w. case replies w of [] \<Rightarrow> (None, w) | r # rs \<Rightarrow> (r, w\<lparr>replies := rs\<rparr>)),
      py_str = (\<lambda>v. case v of PStr s \<Rightarrow> s | _ \<Rightarrow> ''?''),
      json_dumps = (\<lambda>indent v. ''?''),
      json_loads = demo_loads\<rparr>"

section \<open>Properties of data_factory.py\<close>

lemma resolve_ai_text:
  "resolve env (Some ''ai_text'') c =
     (if c = ''positive'' then Some (Unary (generate_ai_content env))
      else if c = ''negative'' then Some (const_gen ''INVALID_AI_PROMPT'') else None)"
  by (simp add: resolve_def TYPE_GENERATORS_def)

lemma resolve_other_niladic:
  "t \<noteq> Some ''ai_text'' \<Longrightarrow> resolve env t c = Some g \<Longrightarrow> \<exists>f. g = Niladic f"
  by (auto simp: resolve_def TYPE_GENERATORS_def str_gen_def const_gen_def
        split: option.splits if_splits)

lemma field_value_error_iff:
  "(\<exists>e. field_value env cfg c w = Inl e) \<longleftrightarrow> (map_of cfg ''type'' = Some ''ai_text'' \<and> c = ''negative'')"
proof (cases "map_of cfg ''type'' = Some ''ai_text''")
  case True
  then show ?thesis
    by (simp add: field_value_def Let_def resolve_ai_text const_gen_def)
next
  case False
  show ?thesis
  proof (cases "resolve env (map_of cfg ''type'') c")
    case None
    with False show ?thesis by (simp add: field_value_def Let_def)
  next
    case (Some g)
    with False resolve_other_niladic [OF False Some] show ?thesis
      by (auto simp: field_value_def Let_def)
  qed
qed

lemma field_value_error_TypeError:
  "field_value env cfg c w = Inl e \<Longrightarrow> e = TypeError"
proof (cases "map_of cfg ''type'' = Some ''ai_text''")
  case True
  assume "field_value env cfg c w = Inl e"
  with True show ?thesis
    by (simp add: field_value_def Let_def resolve_ai_text const_gen_def split: if_splits)
next
  case False
  assume a: "field_value env cfg c w = Inl e"
  show ?thesis
  proof (cases "resolve env (map_of cfg ''type'') c")
    case None
    with False a show ?thesis by (simp add: field_value_def Let_def)
  next
    case (Some g)
    with False a resolve_other_niladic [OF False Some] show ?thesis
      by (auto simp: field_value_def Let_def)
  qed
qed

lemma select_case_cases:
  "select_case env tt w = (c, w1) \<Longrightarrow>
     (tt \<noteq> ''mixed'' \<and> c = tt \<and> w1 = w) \<or> (tt = ''mixed'' \<and> (c = ''positive'' \<or> c = ''negative''))"
  by (auto simp: select_case_def random_choice_def Let_def nth_Cons' split: prod.splits if_splits)

lemma gen_field_Inr:
  assumes "gen_field env tt (name, cfg) (row, w) = Inr (row', w')"
  shows "\<exists>c w1 v. select_case env tt w = (c, w1) \<and> field_value env cfg c w1 = Inr (v, w')
            \<and> row' = dict_set row name v"
  using assms
  by (auto simp: gen_field_def Let_def split: prod.splits sum.splits)

lemma keys_dict_set:
  "map fst (dict_set d k v) = (if k \<in> set (map fst d) then map fst d else map fst d @ [k])"
  by (simp add: dict_set_def update_keys)

lemma map_of_dict_set:
  "map_of (dict_set d k v) = (map_of d)(k \<mapsto> v)"
  by (simp add: dict_set_def update_conv')

lemma for_each_gen_field:
  assumes "distinct (map fst flds)"
    and "for_each (gen_field env tt) flds (row, w) = Inr (row', w')"
  shows "map fst row' = map fst row @ filter (\<lambda>k. k \<notin> set (map fst row)) (map fst flds)
       \<and> (\<forall>k. k \<notin> set (map fst flds) \<longrightarrow> map_of row' k = map_of row k)
       \<and> (\<forall>(name, cfg) \<in> set flds. \<exists>v w0 c w1 w2. map_of row' name = Some v
             \<and> select_case env tt w0 = (c, w1) \<and> field_value env cfg c w1 = Inr (v, w2))"
  using assms
proof (induction flds arbitrary: row w)
  case Nil
  then show ?case by simp
next
  case (Cons f flds)
  obtain name cfg where f: "f = (name, cfg)" by (cases f)
  from Cons.prems(2) f obtain row1 w1 where
    step: "gen_field env tt (name, cfg) (row, w) = Inr (row1, w1)"
    and rest: "for_each (gen_field env tt) flds (row1, w1) = Inr (row', w')"
    by (auto split: sum.splits)
  from gen_field_Inr [OF step] obtain c w0 v where
    sel: "select_case env tt w = (c, w0)" and fv: "field_value env cfg c w0 = Inr (v, w1)"
    and row1: "row1 = dict_set row name v" by blast
  from Cons.prems(1) f have dist: "distinct (map fst flds)" and fresh: "name \<notin> set (map fst flds)"
    by auto
  note IH = Cons.IH [OF dist rest]
  have keys: "map fst row' = map fst row @ filter (\<lambda>k. k \<notin> set (map fst row)) (map fst (f # flds))"
  proof (cases "name \<in> set (map fst row)")
    case True
    with IH row1 f show ?thesis by (simp add: keys_dict_set)
  next
    case False
    have "filter (\<lambda>k. k \<notin> set (map fst row1)) (map fst flds)
        = filter (\<lambda>k. k \<notin> set (map fst row)) (map fst flds)"
      using fresh False row1 by (intro filter_cong) (auto simp: keys_dict_set)
    with IH False row1 f show ?thesis by (simp add: keys_dict_set)
  qed
  have other: "\<forall>k. k \<notin> set (map fst (f # flds)) \<longrightarrow> map_of row' k = map_of row k"
    using IH row1 f by (simp add: map_of_dict_set)
  have "map_of row' name = Some v"
    using IH fresh row1 by (simp add: map_of_dict_set)
  with sel fv have here: "\<exists>v w0 c w1 w2. map_of row' name = Some v
             \<and> select_case env tt w0 = (c, w1) \<and> field_value env cfg c w1 = Inr (v, w2)"
    by blast
  from IH have there: "\<forall>(name, cfg) \<in> set flds. \<exists>v w0 c w1 w2. map_of row' name = Some v
             \<and> select_case env tt w0 = (c, w1) \<and> field_value env cfg c w1 = Inr (v, w2)"
    by blast
  from keys other here there f show ?case by simp
qed

lemma gen_rows_shape:
  assumes "distinct (map fst flds)"
    and "gen_rows env flds tt n (data, w) = Inr (data', w')"
  shows "\<exists>new. data' = data @ new \<and> length new = n \<and> (\<forall>r \<in> set new. row_from env tt flds r)"
  using assms(2)
proof (induction n arbitrary: data w)
  case 0
  then show ?case by simp
next
  case (Suc n)
  from Suc.prems obtain row w1 where
    row: "for_each (gen_field env tt) flds ([], w) = Inr (row, w1)"
    and rest: "gen_rows env flds tt n (data @ [row], w1) = Inr (data', w')"
    by (auto split: sum.splits)
  from for_each_gen_field [OF assms(1) row] have "row_from env tt flds row"
    by simp
  moreover from Suc.IH [OF rest] obtain new where
    "data' = (data @ [row]) @ new" "length new = n" "\<forall>r \<in> set new. row_from env tt flds r"
    by blast
  ultimately have "data' = data @ (row # new) \<and> length (row # new) = Suc n
      \<and> (\<forall>r \<in> set (row # new). row_from env tt flds r)"
    by simp
  then show ?case by blast
qed

lemma fold_add_key:
  "distinct ks \<Longrightarrow>
     fold (\<lambda>k cs. if k \<in> set cs then cs else cs @ [k]) ks cs = cs @ filter (\<lambda>k. k \<notin> set cs) ks"
proof (induction ks arbitrary: cs)
  case Nil
  then show ?case by simp
next
  case (Cons k ks)
  then have fresh: "k \<notin> set ks" and dist: "distinct ks" by auto
  show ?case
  proof (cases "k \<in> set cs")
    case True
    with Cons.IH [OF dist, of cs] show ?thesis by simp
  next
    case False
    have "filter (\<lambda>x. x \<notin> set (cs @ [k])) ks = filter (\<lambda>x. x \<notin> set cs) ks"
      using fresh by (intro filter_cong) auto
    with False Cons.IH [OF dist, of "cs @ [k]"] show ?thesis by simp
  qed
qed

lemma set_fold_add_key:
  "set (fold (\<lambda>k cs. if k \<in> set cs then cs else cs @ [k]) ks cs) = set cs \<union> set ks"
  by (induction ks arbitrary: cs) auto

lemma distinct_fold_add_key:
  "distinct cs \<Longrightarrow> distinct (fold (\<lambda>k cs. if k \<in> set cs then cs else cs @ [k]) ks cs)"
  by (induction ks arbitrary: cs) auto

lemma fold_add_key_subset:
  "set ks \<subseteq> set cs \<Longrightarrow> fold (\<lambda>k cs. if k \<in> set cs then cs else cs @ [k]) ks cs = cs"
  by (induction ks arbitrary: cs) auto

lemma set_add_keys: "set (add_keys r cs) = set cs \<union> set (map fst r)"
  by (simp add: add_keys_def set_fold_add_key)

lemma distinct_add_keys: "distinct cs \<Longrightarrow> distinct (add_keys r cs)"
  by (simp add: add_keys_def distinct_fold_add_key)

lemma add_keys_subset: "set (map fst r) \<subseteq> set cs \<Longrightarrow> add_keys r cs = cs"
  unfolding add_keys_def by (rule fold_add_key_subset)

lemma add_keys_Nil: "distinct (map fst r) \<Longrightarrow> add_keys r [] = map fst r"
  by (simp add: add_keys_def fold_add_key)

lemma fold_add_keys_same:
  "\<forall>r \<in> set data. map fst r = ks \<Longrightarrow> fold add_keys data ks = ks"
  by (induction data) (simp_all add: add_keys_subset)

lemma set_fold_add_keys:
  "set (fold add_keys data cs) = set cs \<union> (\<Union>r \<in> set data. set (map fst r))"
  by (induction data arbitrary: cs) (auto simp: set_add_keys)

lemma distinct_fold_add_keys: "distinct cs \<Longrightarrow> distinct (fold add_keys data cs)"
  by (induction data arbitrary: cs) (auto simp: distinct_add_keys)

lemma set_columns_DataFrame:
  "set (columns (DataFrame data)) = (\<Union>r \<in> set data. set (map fst r))"
  by (simp add: DataFrame_def Let_def set_fold_add_keys)

lemma distinct_columns_DataFrame: "distinct (columns (DataFrame data))"
  by (simp add: DataFrame_def Let_def distinct_fold_add_keys)

lemma columns_DataFrame_same:
  assumes "\<forall>r \<in> set data. map fst r = ks" "data \<noteq> []" "distinct ks"
  shows "columns (DataFrame data) = ks"
proof -
  from assms obtain r rs where d: "data = r # rs" by (cases data) auto
  with assms(1,3) have "add_keys r [] = ks" by (simp add: add_keys_Nil)
  with d assms(1) show ?thesis
    by (simp add: DataFrame_def fold_add_keys_same)
qed

lemma rows_DataFrame: "rows (DataFrame data) = map (\<lambda>r. map (map_of r) (columns (DataFrame data))) data"
  by (simp add: DataFrame_def Let_def)

lemma length_rows_DataFrame: "length (rows (DataFrame data)) = length data"
  by (simp add: DataFrame_def Let_def)

lemma df_cell_DataFrame:
  "i < length data \<Longrightarrow> c \<in> set (columns (DataFrame data)) \<Longrightarrow>
     df_cell (DataFrame data) i c = Some (map_of (data ! i) c)"
  by (simp add: df_cell_def rows_DataFrame length_rows_DataFrame map_of_zip_map)

lemma for_each_gen_field_total:
  assumes "\<forall>(name, cfg) \<in> set flds. map_of cfg ''type'' \<noteq> Some ''ai_text''
              \<or> (tt \<noteq> ''negative'' \<and> tt \<noteq> ''mixed'')"
  shows "\<exists>row' w'. for_each (gen_field env tt) flds (row, w) = Inr (row', w')"
  using assms
proof (induction flds arbitrary: row w)
  case Nil
  then show ?case by simp
next
  case (Cons f flds)
  obtain name cfg where f: "f = (name, cfg)" by (cases f)
  obtain c w1 where sel: "select_case env tt w = (c, w1)" by (cases "select_case env tt w")
  from Cons.prems f have safe: "map_of cfg ''type'' \<noteq> Some ''ai_text''
              \<or> (tt \<noteq> ''negative'' \<and> tt \<noteq> ''mixed'')" by simp
  with select_case_cases [OF sel] have "\<not> (map_of cfg ''type'' = Some ''ai_text'' \<and> c = ''negative'')"
    by auto
  with field_value_error_iff [of env cfg c w1] obtain v w2 where
    fv: "field_value env cfg c w1 = Inr (v, w2)"
    by (cases "field_value env cfg c w1") auto
  with sel have step: "gen_field env tt (name, cfg) (row, w) = Inr (dict_set row name v, w2)"
    by (simp add: gen_field_def)
  from Cons.IH [of "dict_set row name v" w2] Cons.prems obtain row' w' where
    "for_each (gen_field env tt) flds (dict_set row name v, w2) = Inr (row', w')" by auto
  with step f show ?case by simp
qed

lemma gen_rows_total:
  assumes "\<forall>(name, cfg) \<in> set flds. map_of cfg ''type'' \<noteq> Some ''ai_text''
              \<or> (tt \<noteq> ''negative'' \<and> tt \<noteq> ''mixed'')"
  shows "\<exists>data' w'. gen_rows env flds tt n (data, w) = Inr (data', w')"
proof (induction n arbitrary: data w)
  case 0
  then show ?case by simp
next
  case (Suc n)
  from for_each_gen_field_total [OF assms, of env "[]" w] obtain row w1 where
    "for_each (gen_field env tt) flds ([], w) = Inr (row, w1)" by blast
  with Suc.IH [of "data @ [row]" w1] show ?case by simp
qed

lemma gen_field_negative_ai_text:
  "map_of cfg ''type'' = Some ''ai_text'' \<Longrightarrow>
     gen_field env ''negative'' (name, cfg) (row, w) = Inl TypeError"
  by (simp add: gen_field_def select_case_def field_value_def resolve_ai_text const_gen_def)

lemma gen_field_error_TypeError:
  "gen_field env tt f st = Inl e \<Longrightarrow> e = TypeError"
  by (auto simp: gen_field_def Let_def split: prod.splits sum.splits
        dest: field_value_error_TypeError)

lemma for_each_negative_ai_text:
  assumes "\<exists>(name, cfg) \<in> set flds. map_of cfg ''type'' = Some ''ai_text''"
  shows "for_each (gen_field env ''negative'') flds (row, w) = Inl TypeError"
  using assms
proof (induction flds arbitrary: row w)
  case Nil
  then show ?case by simp
next
  case (Cons f flds)
  obtain name cfg where f: "f = (name, cfg)" by (cases f)
  show ?case
  proof (cases "gen_field env ''negative'' f (row, w)")
    case (Inl e)
    with gen_field_error_TypeError [OF Inl] show ?thesis by simp
  next
    case (Inr st)
    obtain row1 w1 where st: "st = (row1, w1)" by (cases st)
    from Inr f gen_field_negative_ai_text [of cfg env name row w]
    have "map_of cfg ''type'' \<noteq> Some ''ai_text''" by auto
    with Cons.prems f have "\<exists>(name, cfg) \<in> set flds. map_of cfg ''type'' = Some ''ai_text''"
      by auto
    from Cons.IH [OF this, of row1 w1] Inr st show ?thesis by simp
  qed
qed

lemma generate_data_negative_ai_text:
  assumes "map_of schema ''fields'' = Some flds"
    and "\<exists>(name, cfg) \<in> set flds. map_of cfg ''type'' = Some ''ai_text''"
    and "0 < N"
  shows "generate_data env schema N ''negative'' w = Inl TypeError"
proof -
  from assms(3) obtain n where n: "nat N = Suc n" by (cases "nat N") auto
  with assms(1) for_each_negative_ai_text [OF assms(2), of env "[]" w] show ?thesis
    by (simp add: generate_data_def)
qed

lemma generate_data_records:
  assumes "map_of schema ''fields'' = Some flds" and "distinct (map fst flds)"
    and "generate_data env schema N tt w = Inr (df, w')"
  shows "\<exists>data. df = DataFrame data \<and> length data = nat N \<and> (\<forall>r \<in> set data. row_from env tt flds r)"
proof -
  from assms(1,3) obtain data where
    g: "gen_rows env flds tt (nat N) ([], w) = Inr (data, w')" and df: "df = DataFrame data"
    by (auto simp: generate_data_def split: sum.splits)
  from gen_rows_shape [OF assms(2) g] df show ?thesis by auto
qed

lemma generate_data_shape:
  assumes "map_of schema ''fields'' = Some flds" and "distinct (map fst flds)"
    and "generate_data env schema N tt w = Inr (df, w')"
  shows "length (rows df) = nat N" and "0 < N \<Longrightarrow> columns df = map fst flds"
proof -
  from generate_data_records [OF assms] obtain data where
    d: "df = DataFrame data" "length data = nat N" "\<forall>r \<in> set data. row_from env tt flds r"
    by blast
  then show "length (rows df) = nat N" by (simp add: length_rows_DataFrame)
  assume "0 < N"
  with d(2) have "data \<noteq> []" by auto
  moreover from d(3) have "\<forall>r \<in> set data. map fst r = map fst flds" by simp
  ultimately show "columns df = map fst flds"
    using d(1) assms(2) by (simp add: columns_DataFrame_same)
qed

lemma generate_data_cells:
  assumes "map_of schema ''fields'' = Some flds" and "distinct (map fst flds)"
    and "generate_data env schema N tt w = Inr (df, w')"
    and "i < length (rows df)" and "(name, cfg) \<in> set flds"
  shows "\<exists>v w0 c w1 w2. df_cell df i name = Some (Some v)
           \<and> select_case env tt w0 = (c, w1) \<and> field_value env cfg c w1 = Inr (v, w2)"
proof -
  from generate_data_records [OF assms(1-3)] obtain data where
    d: "df = DataFrame data" "length data = nat N" "\<forall>r \<in> set data. row_from env tt flds r"
    by blast
  from assms(4) d(1) have i: "i < length data" by (simp add: length_rows_DataFrame)
  then have ne: "data \<noteq> []" by auto
  from d(3) have "\<forall>r \<in> set data. map fst r = map fst flds" by simp
  with ne assms(2) have cols: "columns (DataFrame data) = map fst flds"
    by (simp add: columns_DataFrame_same)
  with assms(5) have "name \<in> set (columns (DataFrame data))" by force
  from df_cell_DataFrame [OF i this] d(1)
  have cell: "df_cell df i name = Some (map_of (data ! i) name)" by simp
  from i d(3) have "row_from env tt flds (data ! i)" by simp
  with assms(5) obtain v w0 c w1 w2 where "map_of (data ! i) name = Some v"
    "select_case env tt w0 = (c, w1)" "field_value env cfg c w1 = Inr (v, w2)"
    by blast
  with cell show ?thesis by auto
qed

lemma generate_data_total:
  assumes "map_of schema ''fields'' = Some flds"
    and "\<forall>(name, cfg) \<in> set flds. map_of cfg ''type'' \<noteq> Some ''ai_text''
              \<or> (tt \<noteq> ''negative'' \<and> tt \<noteq> ''mixed'')"
  shows "\<exists>df w'. generate_data env schema N tt w = Inr (df, w')"
proof -
  from gen_rows_total [OF assms(2), of env "nat N" "[]" w] obtain data w' where
    "gen_rows env flds tt (nat N) ([], w) = Inr (data, w')" by blast
  with assms(1) show ?thesis by (simp add: generate_data_def)
qed

lemma field_value_missing:
  "resolve env (map_of cfg ''type'') c = None \<Longrightarrow>
     field_value env cfg c w =
       Inr (PStr (''NO_GENERATOR_FOR_'' @ fmt_opt (map_of cfg ''type'') @ ''_'' @ c), w)"
  by (simp add: field_value_def)




text \<open>
  The shape of the returned table whenever no \<^verbatim>\<open>ai_text\<close> field can meet the negative
  case: \<open>N\<close> rows, the schema's field names as columns in schema order, no missing cell.
\<close>

lemma generate_data_dataset:
  assumes "map_of schema ''fields'' = Some flds" and "distinct (map fst flds)"
    and "\<forall>(name, cfg) \<in> set flds. map_of cfg ''type'' \<noteq> Some ''ai_text''
              \<or> (tt \<noteq> ''negative'' \<and> tt \<noteq> ''mixed'')"
  shows "\<exists>df w'. generate_data env schema N tt w = Inr (df, w')
           \<and> length (rows df) = nat N
           \<and> (0 < N \<longrightarrow> columns df = map fst flds)
           \<and> (\<forall>row \<in> set (rows df). length row = length flds \<and> None \<notin> set row)"
proof -
  from generate_data_total [OF assms(1,3), of env N w] obtain df w' where
    run: "generate_data env schema N tt w = Inr (df, w')" by blast
  from generate_data_records [OF assms(1,2) run] obtain data where
    d: "df = DataFrame data" "length data = nat N" "\<forall>r \<in> set data. row_from env tt flds r"
    by blast
  have cells: "\<forall>row \<in> set (rows df). length row = length flds \<and> None \<notin> set row"
  proof
    fix row assume "row \<in> set (rows df)"
    with d(1) obtain r where r: "r \<in> set data" and row: "row = map (map_of r) (columns df)"
      by (auto simp: rows_DataFrame)
    then have ne: "data \<noteq> []" by auto
    from d(3) have "\<forall>r \<in> set data. map fst r = map fst flds" by simp
    with ne assms(2) d(1) have cols: "columns df = map fst flds"
      by (simp add: columns_DataFrame_same)
    from d(3) r have keys: "map fst r = map fst flds" by simp
    have "None \<notin> set (map (map_of r) (map fst r))"
    proof
      assume "None \<in> set (map (map_of r) (map fst r))"
      then obtain k where k: "k \<in> set (map fst r)" and "None = map_of r k" by auto
      then have "map_of r k = None" by simp
      with k show False by (simp add: map_of_eq_None_iff)
    qed
    with row cols keys show "length row = length flds \<and> None \<notin> set row" by simp
  qed
  from run generate_data_shape [OF assms(1,2) run] cells show ?thesis by blast
qed

section \<open>Claims about the schema-driven generator\<close>

text \<open>
  C1. The claim reads: for every schema, every row count \<open>N > 0\<close> and every case policy,
  \<^verbatim>\<open>generate_data\<close> returns exactly \<open>N\<close> records, each with exactly the schema's field
  names in schema order. The code does not do so: with an \<^verbatim>\<open>ai_text\<close> field and the
  negative policy the call on line 115 passes the prompt to the zero-argument lambda of
  line 47 and raises \<^verbatim>\<open>TypeError\<close>, so no dataset is returned. The theorem evaluates
  the code on a two-field schema with two rows, for every environment. (Lemma
  \<open>generate_data_dataset\<close> gives the claimed shape for all other inputs.)
\<close>

theorem generate_data_no_dataset_for_negative_ai_text:
  "generate_data env
     [(''fields'', [(''name'', [(''type'', ''name'')]), (''bio'', [(''type'', ''ai_text'')])])]
     2 ''negative'' w = Inl TypeError"
  by (rule generate_data_negative_ai_text) auto

text \<open>
  C2. The claim reads: \<^verbatim>\<open>generate_data\<close> never raises, and an \<^verbatim>\<open>ai_text\<close> field under the
  negative case receives the fixed sentinel string. On the code the negative generator of
  \<^verbatim>\<open>ai_text\<close> takes no argument, while line 115 calls every \<^verbatim>\<open>ai_text\<close> generator with the
  prompt: the run ends with \<^verbatim>\<open>TypeError\<close> and the sentinel is never stored.
\<close>

theorem generate_data_ai_text_negative_raises:
  "generate_data env
     [(''fields'', [(''bio'', [(''type'', ''ai_text''), (''prompt'', ''a short bio'')])])]
     1 ''negative'' w = Inl TypeError"
  by (rule generate_data_negative_ai_text) auto

text \<open>
  C3. A field without a registered generator for the selected case gets the string
  \<^verbatim>\<open>NO_GENERATOR_FOR_<type>_<case>\<close> and its step never raises: (1) for every selected case
  the field's step returns the sentinel and leaves the world untouched; (2) under a fixed
  policy every row of a returned table holds the sentinel in that column; (3) under the
  mixed policy every row holds the sentinel of the positive or of the negative case;
  (4) the run returns a table of \<open>N\<close> rows unless the policy can select the negative case
  and the schema has an \<^verbatim>\<open>ai_text\<close> field, so a missing generator never ends the run.
\<close>

theorem missing_generator_sentinel:
  assumes "map_of schema ''fields'' = Some flds" and "distinct (map fst flds)"
    and "(name, cfg) \<in> set flds"
  shows "(\<forall>c w0. resolve env (map_of cfg ''type'') c = None \<longrightarrow>
            field_value env cfg c w0 =
              Inr (PStr (''NO_GENERATOR_FOR_'' @ fmt_opt (map_of cfg ''type'') @ ''_'' @ c), w0))
       \<and> (tt \<noteq> ''mixed'' \<and> resolve env (map_of cfg ''type'') tt = None \<longrightarrow>
            (\<forall>df w' i. generate_data env schema N tt w = Inr (df, w') \<and> i < length (rows df) \<longrightarrow>
               df_cell df i name =
                 Some (Some (PStr (''NO_GENERATOR_FOR_'' @ fmt_opt (map_of cfg ''type'') @ ''_'' @ tt)))))
       \<and> (tt = ''mixed'' \<and> resolve env (map_of cfg ''type'') ''positive'' = None
             \<and> resolve env (map_of cfg ''type'') ''negative'' = None \<longrightarrow>
            (\<forall>df w' i. generate_data env schema N tt w = Inr (df, w') \<and> i < length (rows df) \<longrightarrow>
               (\<exists>c. (c = ''positive'' \<or> c = ''negative'') \<and> df_cell df i name =
                 Some (Some (PStr (''NO_GENERATOR_FOR_'' @ fmt_opt (map_of cfg ''type'') @ ''_'' @ c))))))
       \<and> ((tt = ''negative'' \<or> tt = ''mixed'' \<longrightarrow>
              (\<forall>(n, c) \<in> set flds. map_of c ''type'' \<noteq> Some ''ai_text'')) \<longrightarrow>
            (\<exists>df w'. generate_data env schema N tt w = Inr (df, w') \<and> length (rows df) = nat N))"
proof (intro conjI allI impI)
  fix c w0 assume "resolve env (map_of cfg ''type'') c = None"
  then show "field_value env cfg c w0 =
      Inr (PStr (''NO_GENERATOR_FOR_'' @ fmt_opt (map_of cfg ''type'') @ ''_'' @ c), w0)"
    by (rule field_value_missing)
next
  fix df w' i
  assume fixed: "tt \<noteq> ''mixed'' \<and> resolve env (map_of cfg ''type'') tt = None"
    and run: "generate_data env schema N tt w = Inr (df, w') \<and> i < length (rows df)"
  from generate_data_cells [OF assms(1,2) _ _ assms(3), of env N tt w df w' i] run
  obtain v w0 c w1 w2 where cell: "df_cell df i name = Some (Some v)"
    and sel: "select_case env tt w0 = (c, w1)" and fv: "field_value env cfg c w1 = Inr (v, w2)"
    by blast
  from select_case_cases [OF sel] fixed have "c = tt" by auto
  with fv fixed cell show "df_cell df i name =
      Some (Some (PStr (''NO_GENERATOR_FOR_'' @ fmt_opt (map_of cfg ''type'') @ ''_'' @ tt)))"
    by (simp add: field_value_missing)
next
  fix df w' i
  assume mixed: "tt = ''mixed'' \<and> resolve env (map_of cfg ''type'') ''positive'' = None
             \<and> resolve env (map_of cfg ''type'') ''negative'' = None"
    and run: "generate_data env schema N tt w = Inr (df, w') \<and> i < length (rows df)"
  from generate_data_cells [OF assms(1,2) _ _ assms(3), of env N tt w df w' i] run
  obtain v w0 c w1 w2 where cell: "df_cell df i name = Some (Some v)"
    and sel: "select_case env tt w0 = (c, w1)" and fv: "field_value env cfg c w1 = Inr (v, w2)"
    by blast
  from select_case_cases [OF sel] mixed have c: "c = ''positive'' \<or> c = ''negative''" by auto
  with mixed have "resolve env (map_of cfg ''type'') c = None" by auto
  with fv cell have "df_cell df i name =
      Some (Some (PStr (''NO_GENERATOR_FOR_'' @ fmt_opt (map_of cfg ''type'') @ ''_'' @ c)))"
    by (simp add: field_value_missing)
  with c show "\<exists>c. (c = ''positive'' \<or> c = ''negative'') \<and> df_cell df i name =
      Some (Some (PStr (''NO_GENERATOR_FOR_'' @ fmt_opt (map_of cfg ''type'') @ ''_'' @ c)))"
    by blast
next
  assume safe: "tt = ''negative'' \<or> tt = ''mixed'' \<longrightarrow>
      (\<forall>(n, c) \<in> set flds. map_of c ''type'' \<noteq> Some ''ai_text'')"
  then have "\<forall>(name, cfg) \<in> set flds. map_of cfg ''type'' \<noteq> Some ''ai_text''
              \<or> (tt \<noteq> ''negative'' \<and> tt \<noteq> ''mixed'')" by auto
  from generate_data_total [OF assms(1) this, of env N w] obtain df w' where
    run: "generate_data env schema N tt w = Inr (df, w')" by blast
  with generate_data_shape(1) [OF assms(1,2) run] show
    "\<exists>df w'. generate_data env schema N tt w = Inr (df, w') \<and> length (rows df) = nat N"
    by blast
qed

theorem missing_generator_sentinel_witness:
  "map_of [(''fields'', [(''x'', [(''type'', ''foo'')])])] ''fields''
     = Some [(''x'', [(''type'', ''foo'')])]
   \<and> distinct (map fst [(''x'', [(''type'', ''foo'')])])
   \<and> (''x'', [(''type'', ''foo'')]) \<in> set [(''x'', [(''type'', ''foo'')])]
   \<and> resolve demo_env (map_of [(''type'', ''foo'')] ''type'') ''positive'' = None
   \<and> generate_data demo_env [(''fields'', [(''x'', [(''type'', ''foo'')])])] 2 ''positive''
        \<lparr>draws = [], replies = []\<rparr>
      = Inr (\<lparr>columns = [''x''],
              rows = [[Some (PStr ''NO_GENERATOR_FOR_foo_positive'')],
                      [Some (PStr ''NO_GENERATOR_FOR_foo_positive'')]]\<rparr>,
             \<lparr>draws = [], replies = []\<rparr>)
   \<and> field_value demo_env [(''type'', ''foo'')] ''positive'' \<lparr>draws = [], replies = []\<rparr>
      = Inr (PStr ''NO_GENERATOR_FOR_foo_positive'', \<lparr>draws = [], replies = []\<rparr>)
   \<and> df_cell \<lparr>columns = [''x''],
              rows = [[Some (PStr ''NO_GENERATOR_FOR_foo_positive'')],
                      [Some (PStr ''NO_GENERATOR_FOR_foo_positive'')]]\<rparr> 1 ''x''
      = Some (Some (PStr ''NO_GENERATOR_FOR_foo_positive''))"
proof -
  let ?cfg = "[(''type'', ''foo'')]"
  let ?flds = "[(''x'', ?cfg)]"
  let ?schema = "[(''fields'', ?flds)]"
  let ?w = "\<lparr>draws = [], replies = []\<rparr>"
  let ?df = "\<lparr>columns = [''x''],
              rows = [[Some (PStr ''NO_GENERATOR_FOR_foo_positive'')],
                      [Some (PStr ''NO_GENERATOR_FOR_foo_positive'')]]\<rparr>"
  have h1: "map_of ?schema ''fields'' = Some ?flds" by simp
  have h2: "distinct (map fst ?flds)" by simp
  have h3: "(''x'', ?cfg) \<in> set ?flds" by simp
  have r: "resolve demo_env (map_of ?cfg ''type'') ''positive'' = None"
    by (simp add: resolve_def TYPE_GENERATORS_def)
  have run: "generate_data demo_env ?schema 2 ''positive'' ?w = Inr (?df, ?w)"
    by (simp add: generate_data_def gen_field_def select_case_def field_value_def resolve_def
          TYPE_GENERATORS_def dict_set_def fmt_opt_def DataFrame_def add_keys_def
          eval_nat_numeral)
  note inst = missing_generator_sentinel [OF h1 h2 h3, of demo_env "''positive''" 2 ?w]
  from inst r have a: "field_value demo_env ?cfg ''positive'' ?w
      = Inr (PStr (''NO_GENERATOR_FOR_'' @ fmt_opt (map_of ?cfg ''type'') @ ''_'' @ ''positive''), ?w)"
    by blast
  from inst r run have b: "df_cell ?df 1 ''x''
      = Some (Some (PStr (''NO_GENERATOR_FOR_'' @ fmt_opt (map_of ?cfg ''type'') @ ''_'' @ ''positive'')))"
    by simp
  from h1 h2 h3 r run a b show ?thesis by (simp add: fmt_opt_def)
qed



section \<open>Properties of test_strategist.py\<close>

lemma has_scenarios_iff:
  "has_scenarios plan \<longleftrightarrow>
     (\<exists>scenarios n. py_getitem plan ''scenarios'' = Inr scenarios \<and> py_len scenarios = Inr n)"
proof (cases plan)
  case (PDict d)
  show ?thesis
  proof (cases "map_of d ''scenarios''")
    case None
    with PDict show ?thesis by (simp add: has_scenarios_def py_getitem_def)
  next
    case (Some v)
    with PDict show ?thesis
      by (cases v) (simp_all add: has_scenarios_def py_getitem_def py_len_def)
  qed
qed (simp_all add: has_scenarios_def py_getitem_def)

lemma scenario_ok_getitem:
  "scenario_ok s \<longleftrightarrow>
     (\<exists>n d t. py_getitem s ''scenario_name'' = Inr n \<and> py_getitem s ''description'' = Inr d
        \<and> py_getitem s ''test_type'' = Inr t)"
  by (cases s) (auto simp: scenario_ok_def py_getitem_def split: option.splits)

lemma scenario_step_ok:
  assumes "scenario_ok s"
  shows "\<exists>n d t out w'. py_getitem s ''scenario_name'' = Inr n
        \<and> py_getitem s ''description'' = Inr d \<and> py_getitem s ''test_type'' = Inr t
        \<and> scenario_rows env flds rps n d t w = (out, w')
        \<and> scenario_step env flds rps s (data, w) = Inr (data @ rows_of out, w')"
proof -
  from assms obtain n d t where g: "py_getitem s ''scenario_name'' = Inr n"
    "py_getitem s ''description'' = Inr d" "py_getitem s ''test_type'' = Inr t"
    by (auto simp: scenario_ok_getitem)
  obtain out w' where r: "scenario_rows env flds rps n d t w = (out, w')"
    by (cases "scenario_rows env flds rps n d t w")
  with g have "scenario_step env flds rps s (data, w) = Inr (data @ rows_of out, w')"
    by (cases out) (simp_all add: scenario_step_def rows_of_def)
  with g r show ?thesis by blast
qed

lemma scenario_step_bad:
  assumes "\<not> scenario_ok s"
  shows "\<exists>e. scenario_step env flds rps s st = Inl e"
proof -
  from assms have "(\<exists>e. py_getitem s ''scenario_name'' = Inl e)
      \<or> (\<exists>e. py_getitem s ''description'' = Inl e) \<or> (\<exists>e. py_getitem s ''test_type'' = Inl e)"
    unfolding scenario_ok_getitem by (metis sum.exhaust)
  then show ?thesis
    by (cases st) (auto simp: scenario_step_def split: sum.splits)
qed

lemma scenario_step_bad_dict:
  assumes "\<not> scenario_ok (PDict d)"
  shows "scenario_step env flds rps (PDict d) st = Inl KeyError"
  using assms
  by (cases st) (auto simp: scenario_step_def scenario_ok_def py_getitem_def split: option.splits)

lemma for_each_scenarios_ok:
  assumes "\<forall>s \<in> set scs. scenario_ok s"
  shows "\<exists>w'. for_each (scenario_step env flds rps) scs (data, w)
            = Inr (data @ concat (map rows_of (plan_outcomes env flds rps scs w)), w')
       \<and> length (plan_outcomes env flds rps scs w) = length scs"
  using assms
proof (induction scs arbitrary: data w)
  case Nil
  then show ?case by simp
next
  case (Cons s scs)
  then have "scenario_ok s" by simp
  from scenario_step_ok [OF this, of env flds rps w data] obtain n d t out w1 where
    g: "py_getitem s ''scenario_name'' = Inr n" "py_getitem s ''description'' = Inr d"
       "py_getitem s ''test_type'' = Inr t"
    and r: "scenario_rows env flds rps n d t w = (out, w1)"
    and st: "scenario_step env flds rps s (data, w) = Inr (data @ rows_of out, w1)"
    by blast
  from Cons.IH [of "data @ rows_of out" w1] Cons.prems obtain w' where
    "for_each (scenario_step env flds rps) scs (data @ rows_of out, w1)
       = Inr ((data @ rows_of out) @ concat (map rows_of (plan_outcomes env flds rps scs w1)), w')"
    "length (plan_outcomes env flds rps scs w1) = length scs"
    by auto
  with g r st show ?case by simp
qed

lemma for_each_scenarios_bad:
  assumes "\<exists>s \<in> set scs. \<not> scenario_ok s"
  shows "\<exists>e. for_each (scenario_step env flds rps) scs st = Inl e"
  using assms
proof (induction scs arbitrary: st)
  case Nil
  then show ?case by simp
next
  case (Cons s scs)
  show ?case
  proof (cases "scenario_ok s")
    case True
    with Cons.prems have rest: "\<exists>s \<in> set scs. \<not> scenario_ok s" by auto
    obtain data w where "st = (data, w)" by (cases st)
    with scenario_step_ok [OF True, of env flds rps w data] obtain st' where
      "scenario_step env flds rps s st = Inr st'" by auto
    with Cons.IH [OF rest, of st'] show ?thesis by simp
  next
    case False
    from scenario_step_bad [OF this, of env flds rps st] show ?thesis by auto
  qed
qed

lemma for_each_scenarios_bad_dict:
  assumes "\<exists>s \<in> set scs. \<not> scenario_ok s" and "\<forall>s \<in> set scs. \<exists>d. s = PDict d"
  shows "for_each (scenario_step env flds rps) scs st = Inl KeyError"
  using assms
proof (induction scs arbitrary: st)
  case Nil
  then show ?case by simp
next
  case (Cons s scs)
  from Cons.prems(2) obtain d where s: "s = PDict d" by auto
  show ?case
  proof (cases "scenario_ok s")
    case True
    with Cons.prems have rest: "\<exists>s \<in> set scs. \<not> scenario_ok s" "\<forall>s \<in> set scs. \<exists>d. s = PDict d"
      by auto
    obtain data w where "st = (data, w)" by (cases st)
    with scenario_step_ok [OF True, of env flds rps w data] obtain st' where
      "scenario_step env flds rps s st = Inr st'" by auto
    with Cons.IH [OF rest, of st'] show ?thesis by simp
  next
    case False
    with s scenario_step_bad_dict [of d env flds rps st] show ?thesis by simp
  qed
qed

lemma generate_rows_for_plan_unfold:
  assumes "plan = PDict p" and "map_of p ''scenarios'' = Some (PList scs)"
  shows "generate_rows_for_plan env plan rps w =
      for_each (scenario_step env (case map_of p ''fields'' of None \<Rightarrow> PList [] | Some v \<Rightarrow> v) rps)
        scs ([], w)"
  using assms by (simp add: generate_rows_for_plan_def py_get_def py_getitem_def py_iter_def)

lemma map_all_Inr:
  "map_all f xs = Inr ys \<Longrightarrow> list_all2 (\<lambda>x y. f x = Inr y) xs ys"
proof (induction xs arbitrary: ys)
  case Nil
  then show ?case by simp
next
  case (Cons x xs)
  then show ?case by (auto split: sum.splits)
qed

lemma tag_row_Inr:
  "tag_row n t row = Inr r \<Longrightarrow>
     \<exists>d. row = PDict d \<and> r = dict_set (dict_set d ''scenario_name'' n) ''test_type'' t"
  by (cases row) (auto simp: tag_row_def)

lemma tagged_lookup:
  "map_of (dict_set (dict_set d ''scenario_name'' n) ''test_type'' t) ''scenario_name'' = Some n"
  "map_of (dict_set (dict_set d ''scenario_name'' n) ''test_type'' t) ''test_type'' = Some t"
  by (simp_all add: map_of_dict_set)

lemma tagged_keys:
  "set (map fst (dict_set (dict_set d ''scenario_name'' n) ''test_type'' t))
     = set (map fst d) \<union> {''scenario_name'', ''test_type''}"
  by (auto simp: keys_dict_set)

lemma scenario_rows_Some:
  assumes "scenario_rows env flds rps n d t w = (Some rs, w')"
  shows "\<forall>r \<in> set rs. from_reply env n t r"
proof -
  from assms obtain reply generated xs where
    call: "generate_content env (rows_prompt env rps d flds) w = (Some reply, w')"
    and parsed: "json_loads env (json_text_of reply) = Some generated"
    and iter: "py_iter generated = Inr xs"
    and tagged: "map_all (tag_row n t) xs = Inr rs"
    by (auto simp: scenario_rows_def tag_rows_def split: prod.splits option.splits sum.splits)
  from map_all_Inr [OF tagged] have l: "list_all2 (\<lambda>x y. tag_row n t x = Inr y) xs rs" .
  show ?thesis
  proof
    fix r assume "r \<in> set rs"
    then obtain i where i: "i < length rs" "rs ! i = r" by (auto simp: in_set_conv_nth)
    with l have "tag_row n t (xs ! i) = Inr r" "i < length xs"
      by (auto simp: list_all2_conv_all_nth)
    with tag_row_Inr [of n t "xs ! i" r] obtain d0 where
      "xs ! i = PDict d0" "r = dict_set (dict_set d0 ''scenario_name'' n) ''test_type'' t"
      by auto
    with \<open>i < length xs\<close> call parsed iter show "from_reply env n t r"
      by (metis nth_mem)
  qed
qed

lemma from_reply_tags:
  "from_reply env n t r \<Longrightarrow>
     map_of r ''scenario_name'' = Some n \<and> map_of r ''test_type'' = Some t"
  by (auto simp: tagged_lookup)

lemma plan_outcomes_nth:
  assumes "\<forall>s \<in> set scs. scenario_ok s" and "i < length scs"
  shows "\<exists>n d t wi wi'. py_getitem (scs ! i) ''scenario_name'' = Inr n
      \<and> py_getitem (scs ! i) ''description'' = Inr d
      \<and> py_getitem (scs ! i) ''test_type'' = Inr t
      \<and> scenario_rows env flds rps n d t wi = (plan_outcomes env flds rps scs w ! i, wi')"
  using assms
proof (induction scs arbitrary: i w)
  case Nil
  then show ?case by simp
next
  case (Cons s scs)
  then have "scenario_ok s" by simp
  then obtain n d t where g: "py_getitem s ''scenario_name'' = Inr n"
    "py_getitem s ''description'' = Inr d" "py_getitem s ''test_type'' = Inr t"
    by (auto simp: scenario_ok_getitem)
  obtain out w1 where r: "scenario_rows env flds rps n d t w = (out, w1)"
    by (cases "scenario_rows env flds rps n d t w")
  show ?case
  proof (cases i)
    case 0
    with g r show ?thesis by auto
  next
    case (Suc j)
    with Cons.prems have "j < length scs" "\<forall>s \<in> set scs. scenario_ok s" by auto
    from Cons.IH [OF this(2,1), of w1] g r Suc show ?thesis by simp
  qed
qed

lemma rows_of_simps: "rows_of None = []" "rows_of (Some rs) = rs"
  by (simp_all add: rows_of_def)

lemma successes_pos: "successes outs \<noteq> 0 \<Longrightarrow> \<exists>rs. Some rs \<in> set outs"
  by (induction outs rule: successes.induct) auto

lemma sum_rows_bound:
  assumes "\<forall>rs. Some rs \<in> set outs \<longrightarrow> length rs \<le> k"
  shows "length (concat (map rows_of outs)) \<le> k * successes outs"
  using assms
proof (induction outs rule: successes.induct)
  case 1
  then show ?case by simp
next
  case (2 outs)
  then show ?case by (simp add: rows_of_simps)
next
  case (3 rs outs)
  then have "length rs \<le> k" "length (concat (map rows_of outs)) \<le> k * successes outs" by auto
  then show ?case by (simp add: rows_of_simps)
qed

lemma scenario_step_Inr:
  assumes "scenario_step env flds rps s (data, w) = Inr (data1, w1)"
  shows "\<exists>n d t out. scenario_rows env flds rps n d t w = (out, w1) \<and> data1 = data @ rows_of out"
proof -
  from assms have "scenario_ok s"
    using scenario_step_bad [of s env flds rps "(data, w)"] by auto
  from scenario_step_ok [OF this, of env flds rps w data] assms show ?thesis by auto
qed

lemma for_each_scenarios_from_reply:
  assumes "for_each (scenario_step env flds rps) scs (data, w) = Inr (data', w')"
  shows "\<forall>r \<in> set data'. r \<in> set data \<or> (\<exists>n t. from_reply env n t r)"
  using assms
proof (induction scs arbitrary: data w)
  case Nil
  then show ?case by simp
next
  case (Cons s scs)
  from Cons.prems obtain data1 w1 where
    step: "scenario_step env flds rps s (data, w) = Inr (data1, w1)"
    and rest: "for_each (scenario_step env flds rps) scs (data1, w1) = Inr (data', w')"
    by (auto split: sum.splits)
  from scenario_step_Inr [OF step] obtain n d t out where
    r: "scenario_rows env flds rps n d t w = (out, w1)" and d1: "data1 = data @ rows_of out"
    by blast
  have new: "\<forall>r \<in> set (rows_of out). from_reply env n t r"
  proof (cases out)
    case None
    then show ?thesis by (simp add: rows_of_simps)
  next
    case (Some rs)
    with r scenario_rows_Some [of env flds rps n d t w rs w1] show ?thesis
      by (simp add: rows_of_simps)
  qed
  show ?case
  proof
    fix r assume "r \<in> set data'"
    with Cons.IH [OF rest] have "r \<in> set data1 \<or> (\<exists>n t. from_reply env n t r)" by blast
    then show "r \<in> set data \<or> (\<exists>n t. from_reply env n t r)"
    proof
      assume "r \<in> set data1"
      with d1 have "r \<in> set data \<or> r \<in> set (rows_of out)" by auto
      with new show ?thesis by blast
    qed blast
  qed
qed

lemma generate_rows_for_plan_from_reply:
  assumes "generate_rows_for_plan env plan rps w = Inr (data, w')"
  shows "\<forall>r \<in> set data. \<exists>n t. from_reply env n t r"
proof -
  from assms obtain flds scs where
    "for_each (scenario_step env flds rps) scs ([], w) = Inr (data, w')"
    by (auto simp: generate_rows_for_plan_def split: sum.splits)
  from for_each_scenarios_from_reply [OF this] show ?thesis by simp
qed

lemma generate_data_for_plan_rows:
  "generate_data_for_plan env plan rps w = Inr (df, w') \<longleftrightarrow>
     (\<exists>data. generate_rows_for_plan env plan rps w = Inr (data, w') \<and> df = DataFrame data)"
  by (auto simp: generate_data_for_plan_def split: sum.splits)

lemma length_row_DataFrame:
  "r \<in> set (rows (DataFrame data)) \<Longrightarrow> length r = length (columns (DataFrame data))"
  by (auto simp: rows_DataFrame)



lemma map_of_filter_key:
  "map_of (filter (\<lambda>(k, v). Q k) xs) k = (if Q k then map_of xs k else None)"
  by (induction xs) auto

lemma df_cell_select:
  assumes "df_select df cols = Inr df_full" and "i < length (rows df)" and "c \<in> set cols"
    and "length (rows df ! i) = length (columns df)"
  shows "df_cell df_full i c = df_cell df i c"
proof -
  let ?r = "rows df ! i"
  from assms(1) have sub: "set cols \<subseteq> set (columns df)"
    and full: "df_full = \<lparr>columns = cols,
             rows = map (\<lambda>r. map (\<lambda>c. case map_of (zip (columns df) r) c of
                                         None \<Rightarrow> None | Some x \<Rightarrow> x) cols) (rows df)\<rparr>"
    by (auto simp: df_select_def split: if_splits)
  from sub assms(3) have "c \<in> set (columns df)" by auto
  with assms(4) obtain x where x: "map_of (zip (columns df) ?r) c = Some x"
    by (metis map_of_zip_is_Some)
  from full assms(2,3) have "df_cell df_full i c
      = Some (case map_of (zip (columns df) ?r) c of None \<Rightarrow> None | Some x \<Rightarrow> x)"
    by (simp add: df_cell_def map_of_zip_map)
  with x assms(2) show ?thesis by (simp add: df_cell_def)
qed

lemma df_cell_drop:
  assumes "df_drop df cols = Inr data_only" and "i < length (rows df)" and "c \<notin> set cols"
    and "length (rows df ! i) = length (columns df)"
  shows "df_cell data_only i c = df_cell df i c"
proof -
  let ?r = "rows df ! i"
  let ?kept = "filter (\<lambda>(c, x). c \<notin> set cols) (zip (columns df) ?r)"
  from assms(1) have only: "data_only = \<lparr>columns = filter (\<lambda>c. c \<notin> set cols) (columns df),
             rows = map (\<lambda>r. map snd (filter (\<lambda>(c, x). c \<notin> set cols) (zip (columns df) r)))
                      (rows df)\<rparr>"
    by (auto simp: df_drop_def split: if_splits)
  have "map fst ?kept = filter (\<lambda>c. c \<notin> set cols) (map fst (zip (columns df) ?r))"
    by (simp add: filter_map comp_def case_prod_unfold)
  with assms(4) have cols: "filter (\<lambda>c. c \<notin> set cols) (columns df) = map fst ?kept"
    by simp
  from only assms(2) have "df_cell data_only i c
      = map_of (zip (filter (\<lambda>c. c \<notin> set cols) (columns df)) (map snd ?kept)) c"
    by (simp add: df_cell_def)
  also have "\<dots> = map_of (zip (map fst ?kept) (map snd ?kept)) c" by (simp only: cols)
  also have "\<dots> = map_of ?kept c" by (simp add: zip_map_fst_snd)
  also have "\<dots> = map_of (zip (columns df) ?r) c"
    using assms(3) by (simp add: map_of_filter_key)
  finally show ?thesis using assms(2) by (simp add: df_cell_def)
qed

lemma plan_frame_has_tags:
  assumes "generate_data_for_plan env plan rps w = Inr (df, w')" and "\<not> df_empty df"
  shows "''scenario_name'' \<in> set (columns df) \<and> ''test_type'' \<in> set (columns df)"
proof -
  from assms(1) obtain data where
    run: "generate_rows_for_plan env plan rps w = Inr (data, w')" and df: "df = DataFrame data"
    by (auto simp: generate_data_for_plan_rows)
  from assms(2) df have "data \<noteq> []" by (auto simp: df_empty_def DataFrame_def)
  then obtain r where r: "r \<in> set data" by (cases data) auto
  with generate_rows_for_plan_from_reply [OF run] obtain n t where "from_reply env n t r" by blast
  from from_reply_tags [OF this] have
    "''scenario_name'' \<in> set (map fst r)" "''test_type'' \<in> set (map fst r)"
    by (auto dest: map_of_SomeD intro: rev_image_eqI)
  with r df show ?thesis by (auto simp: set_columns_DataFrame)
qed

section \<open>Claims about the requirement-driven pipeline\<close>

text \<open>
  C5. The claim reads: a failing scenario is skipped alone, the dataset is the
  concatenation of the successful scenarios' rows in plan order, every row carries its
  scenario's \<^verbatim>\<open>scenario_name\<close> and \<^verbatim>\<open>test_type\<close>, and the row count is at most
  \<^verbatim>\<open>rows_per_scenario\<close> times the number of successful scenarios. The last part fails:
  line 94 appends whatever the reply holds. Below, three scenarios are asked for two rows
  each; the service returns three rows, fails, and returns two rows: five rows for two
  successful scenarios.
\<close>

theorem plan_rows_exceed_bound:
  "row_count (generate_data_for_plan demo_env demo_plan 2
      \<lparr>draws = [], replies = [Some three_rows_text, None, Some two_rows_text]\<rparr>) = Some 5
   \<and> successes (plan_outcomes demo_env demo_fields 2 demo_scenarios
      \<lparr>draws = [], replies = [Some three_rows_text, None, Some two_rows_text]\<rparr>) = 2
   \<and> \<not> (5 :: nat) \<le> 2 * 2"
  by code_simp

text \<open>
  C5 as amended. For a plan whose scenarios all have the three keys, the table is built
  from the concatenation, in plan order, of the outcomes of the scenarios, a skipped
  scenario contributing nothing; every row of a successful scenario carries that
  scenario's name and test type; the row count is the number of rows the service
  returned for the successful scenarios, and it is at most \<^verbatim>\<open>rows_per_scenario\<close> times the
  number of successful scenarios when no successful reply holds more rows than that.
\<close>

theorem plan_rows_concatenated:
  assumes "plan = PDict p" and "map_of p ''scenarios'' = Some (PList scs)"
    and "py_get plan ''fields'' (PList []) = Inr flds"
    and "\<forall>s \<in> set scs. scenario_ok s"
  shows "(\<exists>w'. generate_data_for_plan env plan rps w
            = Inr (DataFrame (concat (map rows_of (plan_outcomes env flds rps scs w))), w'))
       \<and> length (plan_outcomes env flds rps scs w) = length scs
       \<and> (\<forall>i rs n t. i < length scs \<and> plan_outcomes env flds rps scs w ! i = Some rs
             \<and> py_getitem (scs ! i) ''scenario_name'' = Inr n
             \<and> py_getitem (scs ! i) ''test_type'' = Inr t \<longrightarrow>
             (\<forall>r \<in> set rs. map_of r ''scenario_name'' = Some n \<and> map_of r ''test_type'' = Some t))
       \<and> row_count (generate_data_for_plan env plan rps w)
           = Some (length (concat (map rows_of (plan_outcomes env flds rps scs w))))
       \<and> ((\<forall>rs. Some rs \<in> set (plan_outcomes env flds rps scs w) \<longrightarrow> int (length rs) \<le> rps) \<longrightarrow>
            (\<exists>k. row_count (generate_data_for_plan env plan rps w) = Some k
               \<and> int k \<le> rps * int (successes (plan_outcomes env flds rps scs w))))"
proof -
  let ?outs = "plan_outcomes env flds rps scs w"
  from assms(1,3) have flds: "flds = (case map_of p ''fields'' of None \<Rightarrow> PList [] | Some v \<Rightarrow> v)"
    by (simp add: py_get_def)
  from for_each_scenarios_ok [OF assms(4), of env flds rps "[]" w] obtain w' where
    loop: "for_each (scenario_step env flds rps) scs ([], w) = Inr (concat (map rows_of ?outs), w')"
    and len: "length ?outs = length scs" by auto
  from loop generate_rows_for_plan_unfold [OF assms(1,2), of env rps w] flds
  have run: "generate_data_for_plan env plan rps w = Inr (DataFrame (concat (map rows_of ?outs)), w')"
    by (simp add: generate_data_for_plan_def)
  then have count: "row_count (generate_data_for_plan env plan rps w)
      = Some (length (concat (map rows_of ?outs)))"
    by (simp add: row_count_def length_rows_DataFrame)
  have tags: "\<forall>i rs n t. i < length scs \<and> ?outs ! i = Some rs
             \<and> py_getitem (scs ! i) ''scenario_name'' = Inr n
             \<and> py_getitem (scs ! i) ''test_type'' = Inr t \<longrightarrow>
             (\<forall>r \<in> set rs. map_of r ''scenario_name'' = Some n \<and> map_of r ''test_type'' = Some t)"
  proof (intro allI impI)
    fix i rs n t
    assume a: "i < length scs \<and> ?outs ! i = Some rs
             \<and> py_getitem (scs ! i) ''scenario_name'' = Inr n
             \<and> py_getitem (scs ! i) ''test_type'' = Inr t"
    with plan_outcomes_nth [OF assms(4), of i env flds rps w] obtain d wi wi' where
      "scenario_rows env flds rps n d t wi = (Some rs, wi')" by auto
    from scenario_rows_Some [OF this] have fr: "\<forall>r \<in> set rs. from_reply env n t r" .
    show "\<forall>r \<in> set rs. map_of r ''scenario_name'' = Some n \<and> map_of r ''test_type'' = Some t"
    proof
      fix r assume "r \<in> set rs"
      with fr have "from_reply env n t r" by blast
      then show "map_of r ''scenario_name'' = Some n \<and> map_of r ''test_type'' = Some t"
        by (rule from_reply_tags)
    qed
  qed
  have bound: "(\<forall>rs. Some rs \<in> set ?outs \<longrightarrow> int (length rs) \<le> rps) \<longrightarrow>
      (\<exists>k. row_count (generate_data_for_plan env plan rps w) = Some k
         \<and> int k \<le> rps * int (successes ?outs))"
  proof
    assume b: "\<forall>rs. Some rs \<in> set ?outs \<longrightarrow> int (length rs) \<le> rps"
    show "\<exists>k. row_count (generate_data_for_plan env plan rps w) = Some k
         \<and> int k \<le> rps * int (successes ?outs)"
    proof (cases "successes ?outs = 0")
      case True
      have "length (concat (map rows_of ?outs)) \<le> (nat rps) * successes ?outs"
        by (rule sum_rows_bound) (use b in auto)
      with True count show ?thesis by simp
    next
      case False
      have "length (concat (map rows_of ?outs)) \<le> (nat rps) * successes ?outs"
        by (rule sum_rows_bound) (use b in auto)
      then have "int (length (concat (map rows_of ?outs))) \<le> int (nat rps) * int (successes ?outs)"
        by (metis of_nat_le_iff of_nat_mult)
      moreover have "0 \<le> rps"
      proof -
        from successes_pos [OF False] obtain rs where "Some rs \<in> set ?outs" by blast
        with b have "int (length rs) \<le> rps" by blast
        then show ?thesis by linarith
      qed
      ultimately show ?thesis using count by simp
    qed
  qed
  from run len tags count bound show ?thesis by blast
qed

theorem plan_rows_concatenated_witness:
  "demo_plan = PDict [(''fields'', demo_fields), (''scenarios'', PList demo_scenarios)]
   \<and> map_of [(''fields'', demo_fields), (''scenarios'', PList demo_scenarios)] ''scenarios''
       = Some (PList demo_scenarios)
   \<and> py_get demo_plan ''fields'' (PList []) = Inr demo_fields
   \<and> list_all scenario_ok demo_scenarios
   \<and> successes (plan_outcomes demo_env demo_fields 2 demo_scenarios
        \<lparr>draws = [], replies = [Some two_rows_text, None, Some two_rows_text]\<rparr>) = 2
   \<and> (\<exists>k. row_count (generate_data_for_plan demo_env demo_plan 2
        \<lparr>draws = [], replies = [Some two_rows_text, None, Some two_rows_text]\<rparr>) = Some k
        \<and> int k \<le> 2 * 2)"
proof -
  let ?w = "\<lparr>draws = [], replies = [Some two_rows_text, None, Some two_rows_text]\<rparr>"
  have h1: "demo_plan = PDict [(''fields'', demo_fields), (''scenarios'', PList demo_scenarios)]"
    by (simp add: demo_plan_def)
  have h2: "map_of [(''fields'', demo_fields), (''scenarios'', PList demo_scenarios)] ''scenarios''
       = Some (PList demo_scenarios)" by simp
  have h3: "py_get demo_plan ''fields'' (PList []) = Inr demo_fields"
    by (simp add: demo_plan_def py_get_def)
  have h4: "\<forall>s \<in> set demo_scenarios. scenario_ok s"
    by (simp add: demo_scenarios_def scenario_ok_def)
  have outs: "plan_outcomes demo_env demo_fields 2 demo_scenarios ?w =
      [Some [[(''email'', PStr ''a@x.io''), (''password'', PStr ''Secret#24''),
              (''scenario_name'', PStr ''valid login''), (''test_type'', PStr ''positive'')],
             [(''email'', PStr ''b@x.io''), (''password'', PStr ''Other#24''),
              (''scenario_name'', PStr ''valid login''), (''test_type'', PStr ''positive'')]],
       None,
       Some [[(''email'', PStr ''a@x.io''), (''password'', PStr ''Secret#24''),
              (''scenario_name'', PStr ''short password''), (''test_type'', PStr ''negative'')],
             [(''email'', PStr ''b@x.io''), (''password'', PStr ''Other#24''),
              (''scenario_name'', PStr ''short password''), (''test_type'', PStr ''negative'')]]]"
    by code_simp
  then have h5: "\<forall>rs. Some rs \<in> set (plan_outcomes demo_env demo_fields 2 demo_scenarios ?w)
      \<longrightarrow> int (length rs) \<le> 2" by auto
  from outs have s: "successes (plan_outcomes demo_env demo_fields 2 demo_scenarios ?w) = 2"
    by simp
  from plan_rows_concatenated [OF h1 h2 h3 h4, of demo_env 2 ?w] h5
  have "\<exists>k. row_count (generate_data_for_plan demo_env demo_plan 2 ?w) = Some k
      \<and> int k \<le> 2 * int (successes (plan_outcomes demo_env demo_fields 2 demo_scenarios ?w))"
    by blast
  with s have "\<exists>k. row_count (generate_data_for_plan demo_env demo_plan 2 ?w) = Some k
      \<and> int k \<le> 2 * 2" by simp
  moreover from h4 have "list_all scenario_ok demo_scenarios" by (simp add: list_all_iff)
  ultimately show ?thesis using h1 h2 h3 s by blast
qed

text \<open>
  C6. The claim reads: plan synthesis fails exactly when the service call errors, the
  response is not parseable as the required plan shape, or the parsed plan's scenario
  list is empty. The code has no check for an empty list: the reply below parses to a
  plan without scenarios and is returned.
\<close>

theorem plan_without_scenarios_returned:
  "fst (generate_test_plan demo_env ''a login form''
      \<lparr>draws = [], replies = [Some empty_plan_text]\<rparr>)
    = Some (PDict [(''fields'', PList [PStr ''email'']), (''scenarios'', PList [])])"
  by code_simp

text \<open>
  C6 as amended. Plan synthesis returns \<^verbatim>\<open>None\<close> exactly when the service call fails, the
  reply (stripped of code fences) is not valid JSON, or the parsed value is not a
  dictionary whose key \<^verbatim>\<open>scenarios\<close> holds a list, a dictionary or a string; in every
  other case it returns the parsed value unchanged, also when the scenario list is empty.
\<close>

theorem plan_synthesis_outcome:
  "(fst (generate_test_plan env requirement w) = None \<longleftrightarrow>
      (case fst (generate_content env (plan_prompt requirement) w) of
         None \<Rightarrow> True
       | Some text \<Rightarrow>
          (case json_loads env (json_text_of text) of
             None \<Rightarrow> True
           | Some plan \<Rightarrow> \<not> has_scenarios plan)))
   \<and> (\<forall>plan. fst (generate_test_plan env requirement w) = Some plan \<longrightarrow>
        (\<exists>text. fst (generate_content env (plan_prompt requirement) w) = Some text
           \<and> json_loads env (json_text_of text) = Some plan \<and> has_scenarios plan))
   \<and> (\<forall>text d. fst (generate_content env (plan_prompt requirement) w) = Some text
        \<and> json_loads env (json_text_of text) = Some (PDict d)
        \<and> map_of d ''scenarios'' = Some (PList []) \<longrightarrow>
        fst (generate_test_plan env requirement w) = Some (PDict d))"
proof -
  obtain reply w' where r: "generate_content env (plan_prompt requirement) w = (reply, w')"
    by (cases "generate_content env (plan_prompt requirement) w")
  show ?thesis
  proof (cases reply)
    case None
    with r show ?thesis by (simp add: generate_test_plan_def)
  next
    case (Some body)
    show ?thesis
    proof (cases "json_loads env (json_text_of body)")
      case None
      with r Some show ?thesis by (simp add: generate_test_plan_def)
    next
      case (Some plan)
      show ?thesis
      proof (cases "has_scenarios plan")
        case True
        then obtain scenarios n where
          "py_getitem plan ''scenarios'' = Inr scenarios" "py_len scenarios = Inr n"
          by (auto simp: has_scenarios_iff)
        with r \<open>reply = Some body\<close> Some True show ?thesis
          by (auto simp: generate_test_plan_def)
      next
        case False
        then have "\<forall>scenarios. py_getitem plan ''scenarios'' = Inr scenarios \<longrightarrow>
            (\<exists>e. py_len scenarios = Inl e)"
          by (metis has_scenarios_iff sum.exhaust)
        with r \<open>reply = Some body\<close> Some False have "fst (generate_test_plan env requirement w) = None"
          by (auto simp: generate_test_plan_def split: sum.splits)
        moreover from False have "\<forall>d. plan = PDict d \<longrightarrow> map_of d ''scenarios'' \<noteq> Some (PList [])"
          by (auto simp: has_scenarios_def)
        ultimately show ?thesis using r \<open>reply = Some body\<close> Some False by auto
      qed
    qed
  qed
qed

theorem plan_synthesis_outcome_witness:
  "fst (generate_content demo_env (plan_prompt ''a login form'')
      \<lparr>draws = [], replies = [Some (''```json'' @ nl @ demo_plan_text @ nl @ ''```'')]\<rparr>)
     = Some (''```json'' @ nl @ demo_plan_text @ nl @ ''```'')
   \<and> json_loads demo_env (json_text_of (''```json'' @ nl @ demo_plan_text @ nl @ ''```''))
     = Some demo_plan
   \<and> has_scenarios demo_plan
   \<and> fst (generate_test_plan demo_env ''a login form''
      \<lparr>draws = [], replies = [Some (''```json'' @ nl @ demo_plan_text @ nl @ ''```'')]\<rparr>) \<noteq> None"
proof -
  let ?reply = "''```json'' @ nl @ demo_plan_text @ nl @ ''```''"
  let ?w = "\<lparr>draws = [], replies = [Some ?reply]\<rparr>"
  have h1: "fst (generate_content demo_env (plan_prompt ''a login form'') ?w) = Some ?reply"
    by (simp add: demo_env_def)
  have h2: "json_loads demo_env (json_text_of ?reply) = Some demo_plan"
    by code_simp
  have h3: "has_scenarios demo_plan"
    by (simp add: has_scenarios_def demo_plan_def)
  from plan_synthesis_outcome [of demo_env "''a login form''" ?w] h1 h2 h3
  have "fst (generate_test_plan demo_env ''a login form'' ?w) \<noteq> None"
    by simp
  with h1 h2 h3 show ?thesis by blast
qed

text \<open>
  C7. The claim reads: the advisor always returns an integer that is at least 1, and the
  fallback 3 on any failure. The code returns whatever integer the reply parses to: the
  reply \<^verbatim>\<open>0\<close> gives 0.
\<close>

theorem row_count_advice_zero:
  "\<not> 1 \<le> fst (get_ideal_row_count demo_env demo_plan \<lparr>draws = [], replies = [Some ''0'']\<rparr>)"
  by code_simp

text \<open>
  C7 as amended. The advisor never raises. It returns 3 when the service call fails or
  the stripped reply is not an integer literal, and otherwise the integer the reply
  holds, whatever its value (zero and negative numbers included).
\<close>

theorem row_count_advice_outcome:
  "(fst (generate_content env (row_count_prompt env plan) w) = None \<longrightarrow>
      fst (get_ideal_row_count env plan w) = 3)
   \<and> (\<forall>text. fst (generate_content env (row_count_prompt env plan) w) = Some text
        \<and> py_int (strip text) = None \<longrightarrow> fst (get_ideal_row_count env plan w) = 3)
   \<and> (\<forall>text n. fst (generate_content env (row_count_prompt env plan) w) = Some text
        \<and> py_int (strip text) = Some n \<longrightarrow> fst (get_ideal_row_count env plan w) = n)
   \<and> snd (get_ideal_row_count env plan w) = snd (generate_content env (row_count_prompt env plan) w)"
  by (auto simp: get_ideal_row_count_def split: prod.splits option.splits)

theorem row_count_advice_outcome_witness:
  "fst (generate_content demo_env (row_count_prompt demo_env demo_plan)
      \<lparr>draws = [], replies = [Some '' -4 '']\<rparr>) = Some '' -4 ''
   \<and> py_int (strip '' -4 '') = Some (- 4)
   \<and> fst (get_ideal_row_count demo_env demo_plan \<lparr>draws = [], replies = [Some '' -4 '']\<rparr>) = - 4
   \<and> fst (generate_content demo_env (row_count_prompt demo_env demo_plan)
      \<lparr>draws = [], replies = [None]\<rparr>) = None
   \<and> fst (get_ideal_row_count demo_env demo_plan \<lparr>draws = [], replies = [None]\<rparr>) = 3"
proof -
  let ?w = "\<lparr>draws = [], replies = [Some '' -4 '']\<rparr>"
  let ?v = "\<lparr>draws = [], replies = [None]\<rparr>"
  have h1: "fst (generate_content demo_env (row_count_prompt demo_env demo_plan) ?w) = Some '' -4 ''"
    by (simp add: demo_env_def)
  have h2: "py_int (strip '' -4 '') = Some (- 4)"
    by (simp add: py_int_def strip_def is_space_def is_digit_def digit_val_def)
  have h3: "fst (generate_content demo_env (row_count_prompt demo_env demo_plan) ?v) = None"
    by (simp add: demo_env_def)
  from row_count_advice_outcome [of demo_env demo_plan ?w] h1 h2
  have a: "fst (get_ideal_row_count demo_env demo_plan ?w) = - 4" by blast
  from row_count_advice_outcome [of demo_env demo_plan ?v] h3
  have b: "fst (get_ideal_row_count demo_env demo_plan ?v) = 3" by blast
  from h1 h2 h3 a b show ?thesis by blast
qed

text \<open>
  C10. The keys \<^verbatim>\<open>scenario_name\<close>, \<^verbatim>\<open>description\<close> and \<^verbatim>\<open>test_type\<close> are read before
  the \<^verbatim>\<open>try\<close>: a scenario that lacks one of them makes \<^verbatim>\<open>generate_data_for_plan\<close> raise
  (\<^verbatim>\<open>KeyError\<close> when the scenarios are dictionaries) and no table is returned, whatever
  the earlier scenarios produced. When every scenario has the three keys the call
  returns a table, whatever the service does: only failures inside the \<^verbatim>\<open>try\<close> are
  absorbed.
\<close>

theorem missing_scenario_key_aborts:
  assumes "plan = PDict p" and "map_of p ''scenarios'' = Some (PList scs)"
  shows "((\<exists>s \<in> set scs. \<not> scenario_ok s) \<longrightarrow>
            (\<exists>e. generate_data_for_plan env plan rps w = Inl e))
       \<and> ((\<exists>s \<in> set scs. \<not> scenario_ok s) \<and> (\<forall>s \<in> set scs. \<exists>d. s = PDict d) \<longrightarrow>
            generate_data_for_plan env plan rps w = Inl KeyError)
       \<and> ((\<forall>s \<in> set scs. scenario_ok s) \<longrightarrow>
            (\<exists>df w'. generate_data_for_plan env plan rps w = Inr (df, w')))"
proof (intro conjI impI)
  assume "\<exists>s \<in> set scs. \<not> scenario_ok s"
  from for_each_scenarios_bad [OF this] generate_rows_for_plan_unfold [OF assms, of env rps w]
  obtain e where "generate_rows_for_plan env plan rps w = Inl e" by metis
  then show "\<exists>e. generate_data_for_plan env plan rps w = Inl e"
    by (simp add: generate_data_for_plan_def)
next
  assume "(\<exists>s \<in> set scs. \<not> scenario_ok s) \<and> (\<forall>s \<in> set scs. \<exists>d. s = PDict d)"
  then have "generate_rows_for_plan env plan rps w = Inl KeyError"
    using for_each_scenarios_bad_dict generate_rows_for_plan_unfold [OF assms, of env rps w]
    by metis
  then show "generate_data_for_plan env plan rps w = Inl KeyError"
    by (simp add: generate_data_for_plan_def)
next
  assume "\<forall>s \<in> set scs. scenario_ok s"
  from for_each_scenarios_ok [OF this, of env _ rps "[]" w]
    generate_rows_for_plan_unfold [OF assms, of env rps w]
  obtain data w' where "generate_rows_for_plan env plan rps w = Inr (data, w')" by metis
  then show "\<exists>df w'. generate_data_for_plan env plan rps w = Inr (df, w')"
    by (simp add: generate_data_for_plan_def)
qed

theorem missing_scenario_key_aborts_witness:
  "(\<exists>s \<in> set [PDict [(''scenario_name'', PStr ''valid login''), (''test_type'', PStr ''positive''),
                       (''description'', PStr ''registered user'')],
                PDict [(''scenario_name'', PStr ''no type''), (''description'', PStr ''lacks a key'')]].
      \<not> scenario_ok s)
   \<and> generate_data_for_plan demo_env
        (PDict [(''fields'', demo_fields),
                (''scenarios'', PList
                   [PDict [(''scenario_name'', PStr ''valid login''), (''test_type'', PStr ''positive''),
                           (''description'', PStr ''registered user'')],
                    PDict [(''scenario_name'', PStr ''no type''), (''description'', PStr ''lacks a key'')]])])
        2 \<lparr>draws = [], replies = [Some two_rows_text, Some two_rows_text]\<rparr>
      = Inl KeyError"
proof -
  let ?scs = "[PDict [(''scenario_name'', PStr ''valid login''), (''test_type'', PStr ''positive''),
                       (''description'', PStr ''registered user'')],
                PDict [(''scenario_name'', PStr ''no type''), (''description'', PStr ''lacks a key'')]]"
  let ?p = "[(''fields'', demo_fields), (''scenarios'', PList ?scs)]"
  have h1: "PDict ?p = PDict ?p" by simp
  have h2: "map_of ?p ''scenarios'' = Some (PList ?scs)" by simp
  have h3: "\<exists>s \<in> set ?scs. \<not> scenario_ok s" by (simp add: scenario_ok_def)
  have h4: "\<forall>s \<in> set ?scs. \<exists>d. s = PDict d" by simp
  from missing_scenario_key_aborts [OF h1 h2, of demo_env 2
      "\<lparr>draws = [], replies = [Some two_rows_text, Some two_rows_text]\<rparr>"] h3 h4
  have "generate_data_for_plan demo_env (PDict ?p) 2
      \<lparr>draws = [], replies = [Some two_rows_text, Some two_rows_text]\<rparr> = Inl KeyError"
    by blast
  with h3 show ?thesis by blast
qed

text \<open>
  C8. Both exported tables are computed from the one table that
  \<^verbatim>\<open>generate_data_for_plan\<close> returned. When it is empty nothing is exported. Otherwise the
  full report and the data-only table have the row count of that table; the full report
  has all its columns, \<^verbatim>\<open>scenario_name\<close> and \<^verbatim>\<open>test_type\<close> first; the data-only table has
  the same columns but these two; and every cell of a shared column is the same in both
  (and the same as in the table they come from).
\<close>

theorem export_frames_agree:
  assumes "generate_data_for_plan env plan rps w = Inr (df, w')"
  shows "(df_empty df \<longrightarrow> main_export df = Inr None)
       \<and> (\<not> df_empty df \<longrightarrow>
           (\<exists>df_full data_only. main_export df = Inr (Some (df_full, data_only))
              \<and> length (rows df_full) = length (rows df)
              \<and> length (rows data_only) = length (rows df)
              \<and> columns df_full = ''scenario_name'' # ''test_type''
                   # filter (\<lambda>c. c \<noteq> ''scenario_name'' \<and> c \<noteq> ''test_type'') (columns df)
              \<and> columns data_only
                   = filter (\<lambda>c. c \<noteq> ''scenario_name'' \<and> c \<noteq> ''test_type'') (columns df)
              \<and> set (columns df_full) = set (columns df)
              \<and> set (columns data_only) = set (columns df_full) - {''scenario_name'', ''test_type''}
              \<and> (\<forall>i c. i < length (rows df) \<and> c \<in> set (columns data_only) \<longrightarrow>
                    df_cell df_full i c = df_cell data_only i c)
              \<and> (\<forall>i c. i < length (rows df) \<and> c \<in> set (columns df_full) \<longrightarrow>
                    df_cell df_full i c = df_cell df i c)))"
proof (intro conjI impI)
  assume "df_empty df"
  then show "main_export df = Inr None" by (simp add: main_export_def)
next
  assume ne: "\<not> df_empty df"
  let ?tags = "[''scenario_name'', ''test_type'']"
  let ?rest = "filter (\<lambda>c. c \<noteq> ''scenario_name'' \<and> c \<noteq> ''test_type'') (columns df)"
  from assms obtain data where df: "df = DataFrame data"
    by (auto simp: generate_data_for_plan_rows)
  from plan_frame_has_tags [OF assms ne] have tags: "set ?tags \<subseteq> set (columns df)" by simp
  then have sub: "set (?tags @ ?rest) \<subseteq> set (columns df)" by auto
  define df_full where "df_full = \<lparr>columns = ?tags @ ?rest,
      rows = map (\<lambda>r. map (\<lambda>c. case map_of (zip (columns df) r) c of
                                  None \<Rightarrow> None | Some x \<Rightarrow> x) (?tags @ ?rest)) (rows df)\<rparr>"
  define data_only where "data_only = \<lparr>columns = filter (\<lambda>c. c \<notin> set ?tags) (columns df),
      rows = map (\<lambda>r. map snd (filter (\<lambda>(c, x). c \<notin> set ?tags) (zip (columns df) r)))
               (rows df)\<rparr>"
  have rest_eq: "filter (\<lambda>col. col \<notin> set ?tags) (columns df) = ?rest"
    by (intro filter_cong) auto
  from sub have sel: "df_select df (?tags @ ?rest) = Inr df_full"
    unfolding df_select_def df_full_def by (simp only: if_True)
  from tags have drp: "df_drop df ?tags = Inr data_only"
    unfolding df_drop_def data_only_def by (simp only: if_True)
  from ne sel drp rest_eq have exp: "main_export df = Inr (Some (df_full, data_only))"
    by (simp add: main_export_def Let_def)
  have len: "\<And>i. i < length (rows df) \<Longrightarrow> length (rows df ! i) = length (columns df)"
    using df length_row_DataFrame by auto
  have c1: "length (rows df_full) = length (rows df)" by (simp add: df_full_def)
  have c2: "length (rows data_only) = length (rows df)" by (simp add: data_only_def)
  have c3: "columns df_full = ''scenario_name'' # ''test_type'' # ?rest" by (simp add: df_full_def)
  have c4: "columns data_only = ?rest" using rest_eq by (simp add: data_only_def)
  from tags have c5: "set (columns df_full) = set (columns df)" by (auto simp: df_full_def)
  have c6: "set (columns data_only) = set (columns df_full) - {''scenario_name'', ''test_type''}"
    unfolding c5 c4 by auto
  have same_full: "\<forall>i c. i < length (rows df) \<and> c \<in> set (columns df_full) \<longrightarrow>
      df_cell df_full i c = df_cell df i c"
  proof (intro allI impI)
    fix i c assume a: "i < length (rows df) \<and> c \<in> set (columns df_full)"
    then have "c \<in> set (?tags @ ?rest)" by (simp add: df_full_def)
    from df_cell_select [OF sel _ this len] a show "df_cell df_full i c = df_cell df i c" by blast
  qed
  have same_only: "\<forall>i c. i < length (rows df) \<and> c \<in> set (columns data_only) \<longrightarrow>
      df_cell df_full i c = df_cell data_only i c"
  proof (intro allI impI)
    fix i c assume a: "i < length (rows df) \<and> c \<in> set (columns data_only)"
    with c4 have notin: "c \<notin> set ?tags" and "c \<in> set (columns df)" by auto
    with c5 a same_full have "df_cell df_full i c = df_cell df i c" by blast
    moreover from df_cell_drop [OF drp _ notin len] a have "df_cell data_only i c = df_cell df i c"
      by blast
    ultimately show "df_cell df_full i c = df_cell data_only i c" by simp
  qed
  from exp c1 c2 c3 c4 c5 c6 same_only same_full
  show "\<exists>df_full data_only. main_export df = Inr (Some (df_full, data_only))
              \<and> length (rows df_full) = length (rows df)
              \<and> length (rows data_only) = length (rows df)
              \<and> columns df_full = ''scenario_name'' # ''test_type''
                   # filter (\<lambda>c. c \<noteq> ''scenario_name'' \<and> c \<noteq> ''test_type'') (columns df)
              \<and> columns data_only
                   = filter (\<lambda>c. c \<noteq> ''scenario_name'' \<and> c \<noteq> ''test_type'') (columns df)
              \<and> set (columns df_full) = set (columns df)
              \<and> set (columns data_only) = set (columns df_full) - {''scenario_name'', ''test_type''}
              \<and> (\<forall>i c. i < length (rows df) \<and> c \<in> set (columns data_only) \<longrightarrow>
                    df_cell df_full i c = df_cell data_only i c)
              \<and> (\<forall>i c. i < length (rows df) \<and> c \<in> set (columns df_full) \<longrightarrow>
                    df_cell df_full i c = df_cell df i c)"
    by blast
qed

theorem export_frames_agree_witness:
  "generate_data_for_plan demo_env demo_plan 2 \<lparr>draws = [], replies = [Some two_rows_text]\<rparr>
     = Inr (\<lparr>columns = [''email'', ''password'', ''scenario_name'', ''test_type''],
             rows = [[Some (PStr ''a@x.io''), Some (PStr ''Secret#24''),
                      Some (PStr ''valid login''), Some (PStr ''positive'')],
                     [Some (PStr ''b@x.io''), Some (PStr ''Other#24''),
                      Some (PStr ''valid login''), Some (PStr ''positive'')]]\<rparr>,
            \<lparr>draws = [], replies = []\<rparr>)
   \<and> \<not> df_empty \<lparr>columns = [''email'', ''password'', ''scenario_name'', ''test_type''],
             rows = [[Some (PStr ''a@x.io''), Some (PStr ''Secret#24''),
                      Some (PStr ''valid login''), Some (PStr ''positive'')],
                     [Some (PStr ''b@x.io''), Some (PStr ''Other#24''),
                      Some (PStr ''valid login''), Some (PStr ''positive'')]]\<rparr>
   \<and> (\<exists>df_full data_only.
         main_export \<lparr>columns = [''email'', ''password'', ''scenario_name'', ''test_type''],
             rows = [[Some (PStr ''a@x.io''), Some (PStr ''Secret#24''),
                      Some (PStr ''valid login''), Some (PStr ''positive'')],
                     [Some (PStr ''b@x.io''), Some (PStr ''Other#24''),
                      Some (PStr ''valid login''), Some (PStr ''positive'')]]\<rparr>
           = Inr (Some (df_full, data_only))
       \<and> length (rows df_full) = 2 \<and> length (rows data_only) = 2
       \<and> columns df_full = [''scenario_name'', ''test_type'', ''email'', ''password'']
       \<and> columns data_only = [''email'', ''password''])"
proof -
  let ?w = "\<lparr>draws = [], replies = [Some two_rows_text]\<rparr>"
  let ?df = "\<lparr>columns = [''email'', ''password'', ''scenario_name'', ''test_type''],
             rows = [[Some (PStr ''a@x.io''), Some (PStr ''Secret#24''),
                      Some (PStr ''valid login''), Some (PStr ''positive'')],
                     [Some (PStr ''b@x.io''), Some (PStr ''Other#24''),
                      Some (PStr ''valid login''), Some (PStr ''positive'')]]\<rparr>"
  have run: "generate_data_for_plan demo_env demo_plan 2 ?w = Inr (?df, \<lparr>draws = [], replies = []\<rparr>)"
    by code_simp
  have ne: "\<not> df_empty ?df" by (simp add: df_empty_def)
  from export_frames_agree [OF run] ne
  obtain df_full data_only where
    "main_export ?df = Inr (Some (df_full, data_only))"
    "length (rows df_full) = length (rows ?df)" "length (rows data_only) = length (rows ?df)"
    "columns df_full = ''scenario_name'' # ''test_type''
        # filter (\<lambda>c. c \<noteq> ''scenario_name'' \<and> c \<noteq> ''test_type'') (columns ?df)"
    "columns data_only
        = filter (\<lambda>c. c \<noteq> ''scenario_name'' \<and> c \<noteq> ''test_type'') (columns ?df)"
    by blast
  then have "main_export ?df = Inr (Some (df_full, data_only))
       \<and> length (rows df_full) = 2 \<and> length (rows data_only) = 2
       \<and> columns df_full = [''scenario_name'', ''test_type'', ''email'', ''password'']
       \<and> columns data_only = [''email'', ''password'']"
    by simp
  with run ne show ?thesis by blast
qed




end
